theory Spec2Isabelle
  imports Complex_Main "HOL-Library.Multiset"
begin

section \<open>Tensors\<close>

text \<open>
  The program is array arithmetic on torch tensors. A tensor is modelled by its shape and
  the value at every multi-index; only the values at the valid indices of the shape are
  part of the tensor. Floating-point values are idealised as real numbers, and the
  instance mask is taken in the floating dtype, holding the labels. The non-real floats
  that the program produces on purpose (the initial error \<open>inf\<close>, the mean \<open>nan\<close> of an
  empty tensor, and the \<open>inf\<close> written into the magnitude table of the gradient) are
  modelled explicitly; \<open>torch.pow(phi, 1 / 2)\<close> is the real square root, and in the solver
  its argument is shown never to be negative.

  Every exception is a value of \<open>error\<close>: \<open>UnsupportedDimension\<close> is the \<open>RuntimeError\<close>
  that the program raises itself (lines 71--73 and 178--180), with the number of
  dimensions it reports; \<open>ShapeError\<close> is the \<open>RuntimeError\<close> of the tensor library for
  shapes that cannot be broadcast, stacked, concatenated or viewed; \<open>IndexError\<close> and
  \<open>ZeroDivisionError\<close> are those of Python.
\<close>

datatype error =
    UnsupportedDimension int
  | ShapeError
  | IndexError
  | ZeroDivisionError

record 'a tensor =
  shape :: "nat list"
  elem :: "nat list \<Rightarrow> 'a"

definition bindE :: "error + 'a \<Rightarrow> ('a \<Rightarrow> error + 'b) \<Rightarrow> error + 'b" where
  "bindE m k = (case m of Inl e \<Rightarrow> Inl e | Inr x \<Rightarrow> k x)"

fun mapE :: "('a \<Rightarrow> error + 'b) \<Rightarrow> 'a list \<Rightarrow> error + 'b list" where
  "mapE g [] = Inr []"
| "mapE g (x # xs) = bindE (g x) (\<lambda>y. bindE (mapE g xs) (\<lambda>ys. Inr (y # ys)))"

definition ndim :: "'a tensor \<Rightarrow> nat" where
  "ndim a = length (shape a)"

definition valid_index :: "nat list \<Rightarrow> nat list \<Rightarrow> bool" where
  "valid_index s idx = list_all2 (\<lambda>i n. i < n) idx s"

fun indices :: "nat list \<Rightarrow> nat list list" where
  "indices [] = [[]]"
| "indices (n # ns) = concat (map (\<lambda>i. map (\<lambda>r. i # r) (indices ns)) [0..<n])"

definition numel :: "'a tensor \<Rightarrow> nat" where
  "numel a = prod_list (shape a)"

definition elems :: "'a tensor \<Rightarrow> 'a list" where
  "elems a = map (elem a) (indices (shape a))"

definition ones_like :: "'a tensor \<Rightarrow> real tensor" where
  "ones_like a = \<lparr>shape = shape a, elem = (\<lambda>idx. 1)\<rparr>"

definition map_tensor :: "('a \<Rightarrow> 'b) \<Rightarrow> 'a tensor \<Rightarrow> 'b tensor" where
  "map_tensor g a = \<lparr>shape = shape a, elem = (\<lambda>idx. g (elem a idx))\<rparr>"

text \<open>
  Broadcasting: shapes are aligned at their last axis; two sizes are compatible when they
  are equal or one of them is 1. \<open>broadcast_rev\<close> works on the reversed shapes.
\<close>

fun broadcast_rev :: "nat list \<Rightarrow> nat list \<Rightarrow> nat list option" where
  "broadcast_rev [] ys = Some ys"
| "broadcast_rev (x # xs) [] = Some (x # xs)"
| "broadcast_rev (x # xs) (y # ys) =
     (if x = y \<or> y = 1 then map_option (\<lambda>r. x # r) (broadcast_rev xs ys)
      else if x = 1 then map_option (\<lambda>r. y # r) (broadcast_rev xs ys)
      else None)"

definition broadcast_shapes :: "nat list \<Rightarrow> nat list \<Rightarrow> nat list option" where
  "broadcast_shapes s1 s2 = map_option rev (broadcast_rev (rev s1) (rev s2))"

definition broadcast_index :: "nat list \<Rightarrow> nat list \<Rightarrow> nat list" where
  "broadcast_index s idx =
     map2 (\<lambda>n i. if n = 1 then 0 else i) s (drop (length idx - length s) idx)"

definition binop :: "('a \<Rightarrow> 'b \<Rightarrow> 'c) \<Rightarrow> 'a tensor \<Rightarrow> 'b tensor \<Rightarrow> error + 'c tensor" where
  "binop g a b =
     (case broadcast_shapes (shape a) (shape b) of
        None \<Rightarrow> Inl ShapeError
      | Some r \<Rightarrow> Inr \<lparr>shape = r,
          elem = (\<lambda>idx. g (elem a (broadcast_index (shape a) idx))
                           (elem b (broadcast_index (shape b) idx)))\<rparr>)"

text \<open>An in-place operation \<open>a.op_(b)\<close>: the broadcast shape has to be the shape of \<open>a\<close>.\<close>

definition binop_inplace :: "('a \<Rightarrow> 'b \<Rightarrow> 'a) \<Rightarrow> 'a tensor \<Rightarrow> 'b tensor \<Rightarrow> error + 'a tensor" where
  "binop_inplace g a b =
     (case broadcast_shapes (shape a) (shape b) of
        None \<Rightarrow> Inl ShapeError
      | Some r \<Rightarrow> if r \<noteq> shape a then Inl ShapeError else binop g a b)"

text \<open>\<open>a[:, ..., k, ...]\<close> with \<open>k\<close> at axis \<open>ax\<close>.\<close>

definition select_dim :: "'a tensor \<Rightarrow> nat \<Rightarrow> nat \<Rightarrow> error + 'a tensor" where
  "select_dim a ax k =
     (if ax < ndim a \<and> k < shape a ! ax
      then Inr \<lparr>shape = take ax (shape a) @ drop (Suc ax) (shape a),
                elem = (\<lambda>idx. elem a (take ax idx @ k # drop ax idx))\<rparr>
      else Inl IndexError)"

text \<open>\<open>a[-1, ...]\<close>: the last entry along axis 0.\<close>

definition select_last :: "'a tensor \<Rightarrow> error + 'a tensor" where
  "select_last a =
     (case shape a of
        [] \<Rightarrow> Inl IndexError
      | n # rest \<Rightarrow> if n = 0 then Inl IndexError else select_dim a 0 (n - 1))"

definition unsqueeze :: "'a tensor \<Rightarrow> nat \<Rightarrow> error + 'a tensor" where
  "unsqueeze a ax =
     (if ax \<le> ndim a
      then Inr \<lparr>shape = take ax (shape a) @ 1 # drop ax (shape a),
                elem = (\<lambda>idx. elem a (take ax idx @ drop (Suc ax) idx))\<rparr>
      else Inl IndexError)"

text \<open>\<open>torch.stack\<close> along a new axis 0: a non-empty list of tensors of one shape.\<close>

definition stack :: "real tensor list \<Rightarrow> error + real tensor" where
  "stack ts =
     (case ts of
        [] \<Rightarrow> Inl ShapeError
      | a # rest \<Rightarrow>
          if \<forall>b \<in> set rest. shape b = shape a
          then Inr \<lparr>shape = length ts # shape a,
                    elem = (\<lambda>idx. case idx of [] \<Rightarrow> 0
                              | i # r \<Rightarrow> if i < length ts then elem (ts ! i) r else 0)\<rparr>
          else Inl ShapeError)"

text \<open>\<open>torch.sort(a, dim=0)\<close>, the sorted values: ascending along axis 0 at every pixel.\<close>

definition column :: "'a tensor \<Rightarrow> nat list \<Rightarrow> 'a list" where
  "column a idx = (case shape a of [] \<Rightarrow> [] | n # rest \<Rightarrow> map (\<lambda>j. elem a (j # idx)) [0..<n])"

definition sort_dim0 :: "real tensor \<Rightarrow> real tensor" where
  "sort_dim0 a =
     (case shape a of
        [] \<Rightarrow> a
      | n # rest \<Rightarrow> \<lparr>shape = shape a,
          elem = (\<lambda>idx. case idx of [] \<Rightarrow> 0
                    | i # r \<Rightarrow> if i < n then sort (column a r) ! i else 0)\<rparr>)"

definition sum_dim :: "('a :: comm_monoid_add) tensor \<Rightarrow> nat \<Rightarrow> error + 'a tensor" where
  "sum_dim a ax =
     (if ax < ndim a
      then Inr \<lparr>shape = take ax (shape a) @ drop (Suc ax) (shape a),
                elem = (\<lambda>idx. \<Sum>k\<leftarrow>[0..<shape a ! ax]. elem a (take ax idx @ k # drop ax idx))\<rparr>
      else Inl IndexError)"

section \<open>The Pair Reducer: \<open>_apply_update\<close>\<close>

text \<open>
  The selection mask of line 32, \<open>(minimum_paired - minimum_paired[-1, ...]) < f\<close>, taken
  after the sort of line 30.
\<close>

definition upwind_mask :: "real tensor \<Rightarrow> real \<Rightarrow> error + bool tensor" where
  "upwind_mask srt f =
     bindE (select_last srt) (\<lambda>lst.
     bindE (binop (\<lambda>x y. x - y) srt lst) (\<lambda>diff.
     Inr (map_tensor (\<lambda>x. x < f) diff)))"

definition apply_update :: "real tensor \<Rightarrow> real \<Rightarrow> error + real tensor" where
  "apply_update minimum_paired f =
     (let d = int (ndim minimum_paired) - 3;
          srt = sort_dim0 minimum_paired
      in bindE (upwind_mask srt f) (\<lambda>keep.
         bindE (binop (\<lambda>x k. x * of_bool k) srt keep) (\<lambda>a.
         bindE (sum_dim a 0) (\<lambda>sum_a.
         bindE (sum_dim (map_tensor (\<lambda>x. x\<^sup>2) a) 0) (\<lambda>sum_a2.
         if d = 0 then Inl ZeroDivisionError
         else
           bindE (binop (\<lambda>x y. x - y) (map_tensor (\<lambda>x. x\<^sup>2) sum_a)
                    (map_tensor (\<lambda>x. of_int d * (x - f\<^sup>2)) sum_a2)) (\<lambda>disc.
           bindE (binop (\<lambda>x y. x + y) sum_a (map_tensor sqrt (map_tensor (max 0) disc))) (\<lambda>s.
           Inr (map_tensor (\<lambda>x. (1 / of_int d) * x) s))))))))"

text \<open>
  The sum and the sum of squares of all the pair minima at a pixel, as the stack holds
  them (before any sorting or selection).
\<close>

definition pair_sum :: "real tensor \<Rightarrow> nat list \<Rightarrow> real" where
  "pair_sum minimum_paired idx = sum_list (column minimum_paired idx)"

definition pair_sum_sq :: "real tensor \<Rightarrow> nat list \<Rightarrow> real" where
  "pair_sum_sq minimum_paired idx = sum_list (map (\<lambda>x. x\<^sup>2) (column minimum_paired idx))"

section \<open>The Single-Step Solver: \<open>eikonal_single_step\<close>\<close>

text \<open>
  The tables of lines 59--60 (2D) and 63--69 (3D): the step lengths and, for each of
  them, the indices of the neighbours at that distance from the centre.
\<close>

definition factors_2d :: "real list" where
  "factors_2d = [0, 1, sqrt 2]"

definition index_list_2d :: "nat list list" where
  "index_list_2d = [[4], [1, 3, 5, 7], [0, 2, 6, 8]]"

definition factors_3d :: "real list" where
  "factors_3d = [0, 1, sqrt 2, sqrt 3]"

definition index_list_3d :: "nat list list" where
  "index_list_3d =
     [[13],
      [4, 10, 12, 14, 16, 22],
      [1, 3, 5, 7, 9, 11, 15, 17, 19, 21, 23, 25],
      [0, 2, 6, 8, 18, 20, 24, 26]]"

text \<open>
  One entry of the list comprehension of lines 81--87:
  \<open>torch.minimum(cc[:, :, ind[i], ...], cc[:, :, ind[-(i + 1)], ...])\<close>.
\<close>

definition pair_minimum :: "real tensor \<Rightarrow> nat list \<Rightarrow> nat \<Rightarrow> error + real tensor" where
  "pair_minimum connected_components ind i =
     bindE (select_dim connected_components 2 (ind ! i)) (\<lambda>lo.
     bindE (select_dim connected_components 2 (ind ! (length ind - (i + 1)))) (\<lambda>hi.
     binop min lo hi))"

text \<open>The body of the loop of lines 78--89 for one direction class, updating \<open>phi\<close>.\<close>

definition class_update ::
  "real tensor \<Rightarrow> real tensor \<Rightarrow> nat list \<Rightarrow> real \<Rightarrow> error + real tensor" where
  "class_update connected_components phi ind f =
     (let n_pair = length ind div 2
      in bindE (mapE (pair_minimum connected_components ind) [0..<n_pair]) (\<lambda>mins.
         bindE (stack mins) (\<lambda>minimum_paired.
         bindE (apply_update minimum_paired f) (\<lambda>u.
         binop_inplace (\<lambda>x y. x * y) phi u))))"

fun class_loop ::
  "real tensor \<Rightarrow> real tensor \<Rightarrow> (nat list \<times> real) list \<Rightarrow> error + real tensor" where
  "class_loop connected_components phi [] = Inr phi"
| "class_loop connected_components phi ((ind, f) # rest) =
     bindE (class_update connected_components phi ind f) (\<lambda>phi'.
     class_loop connected_components phi' rest)"

definition eikonal_single_step :: "real tensor \<Rightarrow> error + real tensor" where
  "eikonal_single_step connected_components =
     (if ndim connected_components = 5 \<or> ndim connected_components = 6 then
        (let factors = (if ndim connected_components = 5 then factors_2d else factors_3d);
             index_list = (if ndim connected_components = 5 then index_list_2d else index_list_3d)
         in bindE (select_dim connected_components 2 0) (\<lambda>c0.
            bindE (class_loop connected_components (ones_like c0) (zip (tl index_list) (tl factors))) (\<lambda>phi.
            Inr (map_tensor sqrt phi))))
      else Inl (UnsupportedDimension (int (ndim connected_components) - 3)))"

section \<open>The Neighborhood Sampler: \<open>binary_convolution\<close>\<close>

text \<open>
  The lattice offsets in the order in which the loops of lines 187--196 write them into
  \<open>vector_direction\<close>: row \<open>ind\<close> holds \<open>(i, j)\<close> in 2D and \<open>(i, j, k)\<close> in 3D, \<open>i\<close>
  running fastest and \<open>k\<close> running over \<open>(1, 0, -1)\<close>.
\<close>

definition vector_direction_rows :: "nat \<Rightarrow> int list list" where
  "vector_direction_rows spatial_dim =
     concat (map (\<lambda>k. concat (map (\<lambda>j. map (\<lambda>i. if spatial_dim = 3 then [i, j, k] else [i, j])
                                           [-1, 0, 1])
                                [-1, 0, 1]))
                 (if spatial_dim = 3 then [1, 0, -1] else [0]))"

text \<open>
  Modelled from the spec: \<open>binary_convolution\<close> is imported from \<open>src.morphology\<close>,
  which is not among the sources. The spec describes it as the Neighborhood Sampler:
  a field of shape (batch, channel, spatial...) of spatial rank \<open>d\<close>, 2 or 3, is mapped
  to a neighbour stack of shape (batch, channel, K, spatial...) with \<open>K = 3 ^ d\<close>, 9 or
  27, holding at every pixel the values at the \<open>K\<close> lattice offsets (the zero offset
  included) in raster order, the fastest axis first; a read outside the grid returns the
  nearest value inside it (replicate). The spec requires the order of the offsets to be
  that of the table of the gradient, \<open>vector_direction_rows\<close>, which is used here. The
  first component of an offset is taken to belong to the last spatial axis. The result is
  a new tensor; the argument is only read. The spec says nothing of the sampler on a
  field of any other rank: there its result is left unspecified, whether a stack or an
  error, and nothing below depends on it.
\<close>

definition clamp_coord :: "nat \<Rightarrow> int \<Rightarrow> nat \<Rightarrow> nat" where
  "clamp_coord p off n = nat (min (max (int p + off) 0) (int n - 1))"

definition neighbour_position :: "nat list \<Rightarrow> nat \<Rightarrow> nat list \<Rightarrow> nat list" where
  "neighbour_position sizes k pos =
     map (\<lambda>(p, off, n). clamp_coord p off n)
         (zip pos (zip (rev (vector_direction_rows (length sizes) ! k)) sizes))"

definition binary_convolution :: "'a tensor \<Rightarrow> error + 'a tensor" where
  "binary_convolution a =
     (if ndim a = 4 \<or> ndim a = 5 then
        let sizes = drop 2 (shape a)
        in Inr \<lparr>shape = take 2 (shape a) @ 3 ^ length sizes # sizes,
                elem = (\<lambda>idx. case idx of
                           b # c # k # pos \<Rightarrow> elem a (b # c # neighbour_position sizes k pos)
                         | _ \<Rightarrow> elem a idx)\<rparr>
      else undefined)"

section \<open>The Single-Step Solver as the spec describes it\<close>

text \<open>
  Stated from the words of the spec, to be compared with \<open>eikonal_single_step\<close>. A
  direction class is the set of antipodal pairs of neighbour indices whose offset has one
  Euclidean length \<open>f\<close>; the offset of an index is its row in the lattice table. The
  classes are taken by increasing \<open>f = sqrt m\<close>, \<open>m = 1, ..., d\<close>; the accumulator starts at
  1 everywhere; for each class the minima of its pairs are stacked, reduced by the Pair
  Reducer with that \<open>f\<close>, and multiplied into the accumulator; the result is the square
  root of the accumulator. A stack whose spatial rank is not 2 or 3 is refused.
\<close>

definition squared_length :: "int list \<Rightarrow> int" where
  "squared_length off = (\<Sum>x\<leftarrow>off. x * x)"

definition antipodal_pairs :: "nat \<Rightarrow> nat \<Rightarrow> (nat \<times> nat) list" where
  "antipodal_pairs d m =
     concat (map (\<lambda>i. map (\<lambda>j. (i, j))
                        (filter (\<lambda>j. i < j
                                   \<and> vector_direction_rows d ! j = map uminus (vector_direction_rows d ! i)
                                   \<and> squared_length (vector_direction_rows d ! i) = int m)
                                [0..<3 ^ d]))
                 [0..<3 ^ d])"

definition reference_pair_minimum :: "real tensor \<Rightarrow> nat \<times> nat \<Rightarrow> error + real tensor" where
  "reference_pair_minimum neighbours p =
     bindE (select_dim neighbours 2 (fst p)) (\<lambda>lo.
     bindE (select_dim neighbours 2 (snd p)) (\<lambda>hi.
     binop min lo hi))"

fun reference_loop :: "real tensor \<Rightarrow> real tensor \<Rightarrow> nat \<Rightarrow> nat list \<Rightarrow> error + real tensor" where
  "reference_loop neighbours acc d [] = Inr acc"
| "reference_loop neighbours acc d (m # ms) =
     bindE (mapE (reference_pair_minimum neighbours) (antipodal_pairs d m)) (\<lambda>mins.
     bindE (stack mins) (\<lambda>stacked.
     bindE (apply_update stacked (sqrt (real m))) (\<lambda>partial.
     bindE (binop_inplace (\<lambda>x y. x * y) acc partial) (\<lambda>acc'.
     reference_loop neighbours acc' d ms))))"

definition single_step_reference :: "real tensor \<Rightarrow> error + real tensor" where
  "single_step_reference neighbours =
     (let d = int (ndim neighbours) - 3
      in if d \<noteq> 2 \<and> d \<noteq> 3 then Inl (UnsupportedDimension d)
         else
           (let ones = \<lparr>shape = take 2 (shape neighbours) @ drop 3 (shape neighbours),
                          elem = (\<lambda>idx. 1)\<rparr>
            in bindE (reference_loop neighbours ones (nat d) [1..<Suc (nat d)]) (\<lambda>acc.
               Inr (map_tensor sqrt acc))))"

section \<open>The Fixed-Point Driver: \<open>solve_eikonal\<close>\<close>

text \<open>
  The Python float \<open>error\<close>: \<open>float("inf")\<close> before the first pass, afterwards the mean
  of a tensor, which is \<open>nan\<close> for a tensor without elements. A comparison with
  \<open>nan\<close> is false.
\<close>

datatype pyfloat = Val real | PosInf | NaN

definition float_gt :: "pyfloat \<Rightarrow> real \<Rightarrow> bool" where
  "float_gt x eps = (case x of Val v \<Rightarrow> v > eps | PosInf \<Rightarrow> True | NaN \<Rightarrow> False)"

definition mean_all :: "real tensor \<Rightarrow> pyfloat" where
  "mean_all a = (if numel a = 0 then NaN else Val (sum_list (elems a) / real (numel a)))"

text \<open>
  \<open>a.mean(ax)\<close>. The program takes it along the neighbour axis only, whose size
  \<open>3 ^ d\<close> is not zero.
\<close>

definition mean_dim :: "real tensor \<Rightarrow> nat \<Rightarrow> error + real tensor" where
  "mean_dim a ax =
     bindE (sum_dim a ax) (\<lambda>s. Inr (map_tensor (\<lambda>x. x / real (shape a ! ax)) s))"

text \<open>\<open>a[mask] = v\<close> for a boolean mask of the shape of \<open>a\<close>.\<close>

definition masked_fill :: "'a tensor \<Rightarrow> bool tensor \<Rightarrow> 'a \<Rightarrow> error + 'a tensor" where
  "masked_fill a msk v =
     (if shape msk = shape a
      then Inr \<lparr>shape = shape a, elem = (\<lambda>idx. if elem msk idx then v else elem a idx)\<rparr>
      else Inl IndexError)"

text \<open>Lines 129--135: the affinity mask, derived once from the instance mask.\<close>

definition affinity_mask_of :: "real tensor \<Rightarrow> error + bool tensor" where
  "affinity_mask_of instance_mask =
     bindE (binary_convolution instance_mask) (\<lambda>affinity_mask.
     bindE (unsqueeze instance_mask 2) (\<lambda>centre.
     bindE (binop (\<lambda>x y. x \<noteq> y) affinity_mask centre) (\<lambda>differs.
     bindE (masked_fill affinity_mask differs 0) (\<lambda>affinity_mask.
     Inr (map_tensor (\<lambda>x. x > 0) affinity_mask)))))"

text \<open>Lines 154--156, the smoothing of the first pass.\<close>

definition smooth :: "bool tensor \<Rightarrow> real tensor \<Rightarrow> error + real tensor" where
  "smooth affinity_mask T =
     bindE (binary_convolution T) (\<lambda>nb.
     bindE (binop (\<lambda>x k. x * of_bool k) nb affinity_mask) (\<lambda>masked.
     mean_dim masked 2))"

text \<open>Lines 145--149: the update of \<open>T\<close> by the Single-Step Solver, zeroed on the background.\<close>

definition update_pass :: "bool tensor \<Rightarrow> bool tensor \<Rightarrow> real tensor \<Rightarrow> error + real tensor" where
  "update_pass affinity_mask semantic_mask T =
     bindE (binary_convolution T) (\<lambda>nb.
     bindE (binop (\<lambda>x k. x * of_bool k) nb affinity_mask) (\<lambda>connected_components.
     bindE (eikonal_single_step connected_components) (\<lambda>T1.
     binop_inplace (\<lambda>x k. x * of_bool k) T1 semantic_mask)))"

text \<open>
  Lines 145--158, one pass of the loop: the new \<open>T\<close>, the new \<open>T0\<close> and the new
  \<open>error\<close>. The error is taken before the smoothing, \<open>T0\<close> is overwritten after it.
\<close>

definition loop_body ::
  "bool tensor \<Rightarrow> bool tensor \<Rightarrow> real tensor \<Rightarrow> real tensor \<Rightarrow> int
     \<Rightarrow> error + (real tensor \<times> real tensor \<times> pyfloat)" where
  "loop_body affinity_mask semantic_mask T T0 t =
     bindE (update_pass affinity_mask semantic_mask T) (\<lambda>T2.
     bindE (binop (\<lambda>x y. x - y) T2 T0) (\<lambda>diff.
     let error = mean_all (map_tensor (\<lambda>x. x\<^sup>2) diff)
     in bindE (if t < 1 then smooth affinity_mask T2 else Inr T2) (\<lambda>T3.
        bindE (binop_inplace (\<lambda>old new. new) T0 T3) (\<lambda>T0'.
        Inr (T3, T0', error)))))"

text \<open>
  The loop of line 143. It returns the state in which it stops: \<open>T\<close>, \<open>T0\<close>, the
  number \<open>t\<close> of passes made and the last \<open>error\<close>.
\<close>

function eikonal_loop ::
  "bool tensor \<Rightarrow> bool tensor \<Rightarrow> real \<Rightarrow> int \<Rightarrow> real tensor \<Rightarrow> real tensor \<Rightarrow> int \<Rightarrow> pyfloat
     \<Rightarrow> error + (real tensor \<times> real tensor \<times> int \<times> pyfloat)" where
  "eikonal_loop affinity_mask semantic_mask eps min_steps T T0 t error =
     (if float_gt error eps \<and> t < min_steps then
        (case loop_body affinity_mask semantic_mask T T0 t of
           Inl e \<Rightarrow> Inl e
         | Inr (T', T0', error') \<Rightarrow>
             eikonal_loop affinity_mask semantic_mask eps min_steps T' T0' (t + 1) error')
      else Inr (T, T0, t, error))"
  by pat_completeness auto
termination
  by (relation "measure (\<lambda>(a, s, eps, min_steps, T, T0, t, error). nat (min_steps - t))") auto

declare eikonal_loop.simps [simp del]

definition solve_eikonal_run ::
  "real tensor \<Rightarrow> real \<Rightarrow> int \<Rightarrow> error + (real tensor \<times> real tensor \<times> int \<times> pyfloat)" where
  "solve_eikonal_run instance_mask eps min_steps =
     bindE (affinity_mask_of instance_mask) (\<lambda>affinity_mask.
     let semantic_mask = map_tensor (\<lambda>x. x > 0) instance_mask;
         T = ones_like instance_mask;
         T0 = ones_like instance_mask
     in eikonal_loop affinity_mask semantic_mask eps min_steps T T0 0 PosInf)"

definition solve_eikonal :: "real tensor \<Rightarrow> real \<Rightarrow> int \<Rightarrow> error + real tensor" where
  "solve_eikonal instance_mask eps min_steps =
     bindE (solve_eikonal_run instance_mask eps min_steps) (\<lambda>(T, T0, t, error). Inr T)"

text \<open>The field \<open>T\<close> is zero at every pixel that the semantic mask leaves out.\<close>

definition zero_outside :: "real tensor \<Rightarrow> real tensor \<Rightarrow> bool" where
  "zero_outside instance_mask T \<longleftrightarrow>
     (\<forall>idx \<in> set (indices (shape instance_mask)). elem instance_mask idx \<le> 0 \<longrightarrow> elem T idx = 0)"

section \<open>The Gradient Reconstructor: \<open>gradient_from_eikonal\<close>\<close>

text \<open>\<open>a.view(s)\<close>: the same elements in row-major order under another shape.\<close>

definition ravel :: "nat list \<Rightarrow> nat list \<Rightarrow> nat" where
  "ravel s idx = foldl (\<lambda>acc (n, i). acc * n + i) 0 (zip s idx)"

fun unravel :: "nat list \<Rightarrow> nat \<Rightarrow> nat list" where
  "unravel [] k = []"
| "unravel (n # ns) k = (k div prod_list ns) # unravel ns (k mod prod_list ns)"

definition view :: "'a tensor \<Rightarrow> nat list \<Rightarrow> error + 'a tensor" where
  "view a s =
     (if prod_list s = numel a
      then Inr \<lparr>shape = s, elem = (\<lambda>idx. elem a (unravel (shape a) (ravel s idx)))\<rparr>
      else Inl ShapeError)"

text \<open>\<open>torch.concat((a, b), dim=ax)\<close>: the shapes agree except at axis \<open>ax\<close>.\<close>

definition concat2 :: "'a tensor \<Rightarrow> 'a tensor \<Rightarrow> nat \<Rightarrow> error + 'a tensor" where
  "concat2 a b ax =
     (if ax < ndim a \<and> ndim b = ndim a
         \<and> take ax (shape b) = take ax (shape a)
         \<and> drop (Suc ax) (shape b) = drop (Suc ax) (shape a)
      then Inr \<lparr>shape = (shape a)[ax := shape a ! ax + shape b ! ax],
                elem = (\<lambda>idx. if idx ! ax < shape a ! ax then elem a idx
                                else elem b (idx[ax := idx ! ax - shape a ! ax]))\<rparr>
      else if ax < ndim a \<and> ndim b = ndim a then Inl ShapeError
      else Inl IndexError)"

definition flip :: "'a tensor \<Rightarrow> nat \<Rightarrow> error + 'a tensor" where
  "flip a ax =
     (if ax < ndim a
      then Inr \<lparr>shape = shape a,
                elem = (\<lambda>idx. elem a (idx[ax := shape a ! ax - 1 - idx ! ax]))\<rparr>
      else Inl IndexError)"

text \<open>Lines 184--196: the tensor \<open>vector_direction\<close> of shape \<open>(3 ^ spatial_dim, spatial_dim)\<close>.\<close>

definition vector_direction :: "nat \<Rightarrow> int tensor" where
  "vector_direction spatial_dim =
     \<lparr>shape = [3 ^ spatial_dim, spatial_dim],
      elem = (\<lambda>idx. case idx of
                 [ind, c] \<Rightarrow>
                   if ind < length (vector_direction_rows spatial_dim)
                      \<and> c < length (vector_direction_rows spatial_dim ! ind)
                   then vector_direction_rows spatial_dim ! ind ! c else 0
               | _ \<Rightarrow> 0)\<rparr>"

text \<open>
  Lines 200--203: the magnitudes. Line 229 overwrites the magnitude 0 of the centre by
  \<open>inf\<close>, and line 234 divides by the square of twice the magnitude: a finite number
  divided by \<open>inf\<close> is 0.
\<close>

datatype xreal = Fin real | PInf

definition zero_to_inf :: "real \<Rightarrow> xreal" where
  "zero_to_inf x = (if x = 0 then PInf else Fin x)"

definition twice_squared :: "xreal \<Rightarrow> xreal" where
  "twice_squared m = (case m of Fin x \<Rightarrow> Fin ((2 * x)\<^sup>2) | PInf \<Rightarrow> PInf)"

definition div_xreal :: "real \<Rightarrow> xreal \<Rightarrow> real" where
  "div_xreal x m = (case m of Fin y \<Rightarrow> x / y | PInf \<Rightarrow> 0)"

definition vector_magnitude :: "int tensor \<Rightarrow> error + real tensor" where
  "vector_magnitude vd =
     bindE (sum_dim (map_tensor abs vd) 1) (\<lambda>l1.
     Inr (map_tensor (\<lambda>x. if x \<noteq> 0 then sqrt x else x) (map_tensor real_of_int l1)))"

text \<open>Lines 184--215: the two tables, reshaped for broadcasting.\<close>

definition direction_tables :: "int \<Rightarrow> error + (real tensor \<times> int tensor)" where
  "direction_tables spatial_dim =
     bindE (vector_magnitude (vector_direction (nat spatial_dim))) (\<lambda>vector_magnitude0.
     bindE (view vector_magnitude0
              (if spatial_dim = 2 then [1, 1, 9, 1, 1, 1] else [1, 1, 27, 1, 1, 1, 1])) (\<lambda>vector_magnitude1.
     bindE (view (vector_direction (nat spatial_dim))
              (if spatial_dim = 2 then [1, 1, 9, 2, 1, 1] else [1, 1, 27, 3, 1, 1, 1])) (\<lambda>vector_direction1.
     Inr (vector_magnitude1, vector_direction1))))"

text \<open>Lines 226--237: from the differences to the gradient.\<close>

definition gradient_sum :: "real tensor \<Rightarrow> real tensor \<Rightarrow> int tensor \<Rightarrow> error + real tensor" where
  "gradient_sum affinities1 vector_magnitude1 vector_direction1 =
     bindE (unsqueeze affinities1 3) (\<lambda>affinities2.
     bindE (concat2 affinities2 affinities2 3) (\<lambda>affinities3.
     let vector_magnitude2 = map_tensor zero_to_inf vector_magnitude1
     in bindE (binop (\<lambda>x v. x * real_of_int v) affinities3 vector_direction1) (\<lambda>g1.
        bindE (binop div_xreal g1 (map_tensor twice_squared vector_magnitude2)) (\<lambda>g2.
        bindE (sum_dim g2 2) (\<lambda>g3.
        flip g3 2)))))"

definition gradient_from_eikonal :: "real tensor \<Rightarrow> error + real tensor" where
  "gradient_from_eikonal eikonal =
     (let spatial_dim = int (ndim eikonal) - 2
      in if spatial_dim < 2 \<or> spatial_dim > 3 then Inl (UnsupportedDimension spatial_dim)
         else
           bindE (direction_tables spatial_dim) (\<lambda>(vector_magnitude1, vector_direction1).
           bindE (binary_convolution eikonal) (\<lambda>affinities0.
           bindE (binop_inplace (\<lambda>x y. x - y) affinities0 eikonal) (\<lambda>affinities1.
           gradient_sum affinities1 vector_magnitude1 vector_direction1))))"

section \<open>Pointwise descriptions\<close>

text \<open>
  What the loop of lines 78--89 contributes at one pixel \<open>idx\<close> for the direction class
  with the indices \<open>ind\<close> and the step length \<open>f\<close>: the pair minima at the pixel and the
  closed form of the Pair Reducer on them.
\<close>

definition pair_min_at :: "real tensor \<Rightarrow> nat list \<Rightarrow> nat list \<Rightarrow> nat \<Rightarrow> real" where
  "pair_min_at cc ind idx i =
     min (elem cc (take 2 idx @ ind ! i # drop 2 idx))
         (elem cc (take 2 idx @ ind ! (length ind - (i + 1)) # drop 2 idx))"

definition class_value :: "real tensor \<Rightarrow> nat list \<Rightarrow> real \<Rightarrow> nat list \<Rightarrow> real" where
  "class_value cc ind f idx =
     (let vs = map (pair_min_at cc ind idx) [0..<length ind div 2];
          d = real (length idx) - 2
      in (sum_list vs + sqrt (max 0 ((sum_list vs)\<^sup>2 - d * (sum_list (map (\<lambda>x. x\<^sup>2) vs) - f\<^sup>2)))) / d)"

text \<open>
  The neighbour stack that line 146 hands to the Single-Step Solver: the sampled neighbours
  of \<open>T\<close>, zero where the affinity mask is false.
\<close>

definition masked_neighbours :: "bool tensor \<Rightarrow> real tensor \<Rightarrow> real tensor" where
  "masked_neighbours aff T =
     \<lparr>shape = shape aff,
      elem = (\<lambda>idx. case idx of
                 b # c # k # pos \<Rightarrow> elem T (b # c # neighbour_position (drop 2 (shape T)) k pos) * of_bool (elem aff idx)
               | _ \<Rightarrow> 0)\<rparr>"

text \<open>
  Stated from the words of the spec, to be compared with \<open>smooth\<close>: the mean over the
  valid affinity-masked neighbour directions, that is the sum of the affinity-valid
  neighbour values divided by the number of valid directions at the pixel.
\<close>

definition valid_direction_mean :: "bool tensor \<Rightarrow> real tensor \<Rightarrow> nat list \<Rightarrow> real" where
  "valid_direction_mean affinity_mask T idx =
     (let sizes = drop 2 (shape T);
          valid = filter (\<lambda>k. elem affinity_mask (take 2 idx @ k # drop 2 idx)) [0..<3 ^ length sizes]
      in (\<Sum>k\<leftarrow>valid. elem T (take 2 idx @ neighbour_position sizes k (drop 2 idx))) / real (length valid))"

text \<open>A 2D mask of two pixels: one pixel of instance 1 beside one background pixel.\<close>

definition two_pixel_mask :: "real tensor" where
  "two_pixel_mask = \<lparr>shape = [1, 1, 1, 2], elem = (\<lambda>idx. if idx = [0, 0, 0, 0] then 1 else 0)\<rparr>"

section \<open>An explicit store: the tensors that the entry points write\<close>

text \<open>
  To see which tensors the two entry points write, the program is modelled a second time
  with an explicit store. A store maps addresses to tensors; \<open>next_free\<close> is the first
  address that is not in use. A tensor object of the program is an address. An operation
  that returns a new tensor allocates it; an in-place operation (\<open>mul_\<close>, \<open>copy_\<close>,
  \<open>sub_\<close>, an assignment through a mask) overwrites the tensor at the address of its
  target. In both functions the target of every in-place operation on floating-point data
  derived from the argument is a whole tensor object (the result of \<open>binary_convolution\<close>,
  of \<open>torch.ones_like\<close> or of \<open>torch.pow\<close>), never a view. Views (\<open>unsqueeze\<close>, indexing)
  and tensors that are only read after their creation are kept as values, and so are the
  boolean masks and the two tables of the gradient, which are built from scalars alone.
  The sampler returns a new tensor and only reads its argument, as in the pure model.
\<close>

record store =
  heap :: "nat \<Rightarrow> real tensor"
  next_free :: nat

definition alloc :: "real tensor \<Rightarrow> store \<Rightarrow> nat \<times> store" where
  "alloc v st = (next_free st, st\<lparr>heap := (heap st)(next_free st := v), next_free := Suc (next_free st)\<rparr>)"

definition overwrite :: "nat \<Rightarrow> real tensor \<Rightarrow> store \<Rightarrow> store" where
  "overwrite a v st = st\<lparr>heap := (heap st)(a := v)\<rparr>"

text \<open>Line 89, \<open>phi.mul_(_apply_update(minimum_paired, f))\<close>: \<open>phi\<close> is overwritten.\<close>

definition class_update_st :: "nat \<Rightarrow> nat \<Rightarrow> nat list \<Rightarrow> real \<Rightarrow> store \<Rightarrow> error + store" where
  "class_update_st connected_components phi ind f st =
     bindE (class_update (heap st connected_components) (heap st phi) ind f) (\<lambda>v.
     Inr (overwrite phi v st))"

fun class_loop_st :: "nat \<Rightarrow> nat \<Rightarrow> (nat list \<times> real) list \<Rightarrow> store \<Rightarrow> error + store" where
  "class_loop_st connected_components phi [] st = Inr st"
| "class_loop_st connected_components phi ((ind, f) # rest) st =
     bindE (class_update_st connected_components phi ind f st) (\<lambda>st'.
     class_loop_st connected_components phi rest st')"

text \<open>
  \<open>eikonal_single_step\<close>: \<open>phi\<close> is allocated by \<open>torch.ones_like\<close> (line 75), overwritten
  in the loop, and the result of \<open>torch.pow\<close> (line 91) is a new tensor.
\<close>

definition eikonal_single_step_st :: "nat \<Rightarrow> store \<Rightarrow> error + (nat \<times> store)" where
  "eikonal_single_step_st connected_components st =
     (let cc = heap st connected_components
      in if ndim cc = 5 \<or> ndim cc = 6 then
           (let factors = (if ndim cc = 5 then factors_2d else factors_3d);
                index_list = (if ndim cc = 5 then index_list_2d else index_list_3d)
            in bindE (select_dim cc 2 0) (\<lambda>c0.
               case alloc (ones_like c0) st of (phi, st1) \<Rightarrow>
               bindE (class_loop_st connected_components phi (zip (tl index_list) (tl factors)) st1) (\<lambda>st2.
               Inr (alloc (map_tensor sqrt (heap st2 phi)) st2))))
         else Inl (UnsupportedDimension (int (ndim cc) - 3)))"

text \<open>
  One pass of the loop of \<open>solve_eikonal\<close>: the stack handed to the Single-Step Solver and
  its result \<open>T\<close> are new tensors, \<open>T.mul_\<close> (line 149) overwrites that result, the
  smoothed field (lines 154--156) is a new tensor, and \<open>T0.copy_\<close> (line 158) overwrites
  \<open>T0\<close>.
\<close>

definition loop_body_st ::
  "bool tensor \<Rightarrow> bool tensor \<Rightarrow> nat \<Rightarrow> nat \<Rightarrow> int \<Rightarrow> store \<Rightarrow> error + (nat \<times> pyfloat \<times> store)" where
  "loop_body_st affinity_mask semantic_mask T T0 t st =
     bindE (binary_convolution (heap st T)) (\<lambda>nb.
     bindE (binop (\<lambda>x k. x * of_bool k) nb affinity_mask) (\<lambda>stack_value.
     case alloc stack_value st of (connected_components, st1) \<Rightarrow>
     bindE (eikonal_single_step_st connected_components st1) (\<lambda>(T1, st2).
     bindE (binop_inplace (\<lambda>x k. x * of_bool k) (heap st2 T1) semantic_mask) (\<lambda>v.
     let st3 = overwrite T1 v st2
     in bindE (binop (\<lambda>x y. x - y) (heap st3 T1) (heap st3 T0)) (\<lambda>diff.
        let error = mean_all (map_tensor (\<lambda>x. x\<^sup>2) diff)
        in bindE (if t < 1
                  then bindE (smooth affinity_mask (heap st3 T1)) (\<lambda>s. Inr (alloc s st3))
                  else Inr (T1, st3)) (\<lambda>(T3, st4).
           bindE (binop_inplace (\<lambda>old new. new) (heap st4 T0) (heap st4 T3)) (\<lambda>v0.
           Inr (T3, error, overwrite T0 v0 st4))))))))"

function eikonal_loop_st ::
  "bool tensor \<Rightarrow> bool tensor \<Rightarrow> real \<Rightarrow> int \<Rightarrow> nat \<Rightarrow> nat \<Rightarrow> int \<Rightarrow> pyfloat \<Rightarrow> store
     \<Rightarrow> error + (nat \<times> store)" where
  "eikonal_loop_st affinity_mask semantic_mask eps min_steps T T0 t error st =
     (if float_gt error eps \<and> t < min_steps then
        (case loop_body_st affinity_mask semantic_mask T T0 t st of
           Inl e \<Rightarrow> Inl e
         | Inr (T', error', st') \<Rightarrow>
             eikonal_loop_st affinity_mask semantic_mask eps min_steps T' T0 (t + 1) error' st')
      else Inr (T, st))"
  by pat_completeness auto
termination
  by (relation "measure (\<lambda>(a, s, eps, min_steps, T, T0, t, error, st). nat (min_steps - t))") auto

declare eikonal_loop_st.simps [simp del]

text \<open>
  \<open>solve_eikonal\<close> with the instance mask at the address \<open>instance_mask\<close>: the stack of
  line 129 is a new tensor, which the assignment of line 132 overwrites; \<open>T\<close> and \<open>T0\<close>
  are allocated by line 138.
\<close>

definition solve_eikonal_st :: "nat \<Rightarrow> real \<Rightarrow> int \<Rightarrow> store \<Rightarrow> error + (nat \<times> store)" where
  "solve_eikonal_st instance_mask eps min_steps st =
     bindE (binary_convolution (heap st instance_mask)) (\<lambda>nb.
     case alloc nb st of (affinity_mask0, st1) \<Rightarrow>
     bindE (unsqueeze (heap st1 instance_mask) 2) (\<lambda>centre.
     bindE (binop (\<lambda>x y. x \<noteq> y) (heap st1 affinity_mask0) centre) (\<lambda>differs.
     bindE (masked_fill (heap st1 affinity_mask0) differs 0) (\<lambda>v.
     let st2 = overwrite affinity_mask0 v st1;
         affinity_mask = map_tensor (\<lambda>x. x > 0) (heap st2 affinity_mask0);
         semantic_mask = map_tensor (\<lambda>x. x > 0) (heap st2 instance_mask)
     in case alloc (ones_like (heap st2 instance_mask)) st2 of (T, st3) \<Rightarrow>
        case alloc (ones_like (heap st3 instance_mask)) st3 of (T0, st4) \<Rightarrow>
        eikonal_loop_st affinity_mask semantic_mask eps min_steps T T0 0 PosInf st4))))"

text \<open>
  \<open>gradient_from_eikonal\<close> with the field at the address \<open>eikonal\<close>: the stack of line 217
  is a new tensor, which \<open>sub_\<close> (line 225) overwrites; the gradient is a new tensor.
\<close>

definition gradient_from_eikonal_st :: "nat \<Rightarrow> store \<Rightarrow> error + (nat \<times> store)" where
  "gradient_from_eikonal_st eikonal st =
     (let spatial_dim = int (ndim (heap st eikonal)) - 2
      in if spatial_dim < 2 \<or> spatial_dim > 3 then Inl (UnsupportedDimension spatial_dim)
         else
           bindE (direction_tables spatial_dim) (\<lambda>(vector_magnitude1, vector_direction1).
           bindE (binary_convolution (heap st eikonal)) (\<lambda>nb.
           case alloc nb st of (affinities, st1) \<Rightarrow>
           bindE (binop_inplace (\<lambda>x y. x - y) (heap st1 affinities) (heap st1 eikonal)) (\<lambda>v.
           let st2 = overwrite affinities v st1
           in bindE (gradient_sum (heap st2 affinities) vector_magnitude1 vector_direction1) (\<lambda>g.
              Inr (alloc g st2))))))"

section \<open>Properties of the tensor operations\<close>

lemma bindE_Inr [simp]: "bindE (Inr x) k = k x"
  by (simp add: bindE_def)

lemma bindE_Inl [simp]: "bindE (Inl e) k = Inl e"
  by (simp add: bindE_def)

lemma valid_index_Nil [simp]: "valid_index [] idx \<longleftrightarrow> idx = []"
  by (simp add: valid_index_def)

lemma valid_index_Cons [simp]:
  "valid_index (n # s) idx \<longleftrightarrow> (\<exists>i r. idx = i # r \<and> i < n \<and> valid_index s r)"
  by (cases idx) (auto simp: valid_index_def)

lemma valid_index_length: "valid_index s idx \<Longrightarrow> length idx = length s"
  by (simp add: valid_index_def list_all2_lengthD)

lemma map2_broadcast_id:
  "list_all2 (\<lambda>i n. i < n) idx s \<Longrightarrow> map2 (\<lambda>n i. if n = 1 then 0 else i) s idx = (idx :: nat list)"
  by (induction idx s rule: list_all2_induct) auto

lemma map2_broadcast_id':
  "list_all2 (\<lambda>i n. i < n) idx s \<Longrightarrow> map2 (\<lambda>n i. if n = Suc 0 then 0 else i) s idx = (idx :: nat list)"
  using map2_broadcast_id by simp

lemma broadcast_index_valid [simp]:
  "valid_index s idx \<Longrightarrow> broadcast_index s idx = idx"
  by (simp add: broadcast_index_def valid_index_def map2_broadcast_id' list_all2_lengthD)

lemma broadcast_index_suffix [simp]:
  "valid_index s idx \<Longrightarrow> broadcast_index s (pre @ idx) = idx"
  by (simp add: broadcast_index_def valid_index_def map2_broadcast_id' list_all2_lengthD)

lemma broadcast_index_Cons [simp]:
  "valid_index s idx \<Longrightarrow> broadcast_index s (i # idx) = idx"
  using broadcast_index_suffix[of s idx "[i]"] by simp

lemma broadcast_rev_same: "broadcast_rev xs xs = Some xs"
  by (induction xs) auto

lemma broadcast_rev_prefix: "broadcast_rev (xs @ ys) xs = Some (xs @ ys)"
  by (induction xs) (auto, cases ys, auto)

lemma broadcast_shapes_same [simp]: "broadcast_shapes s s = Some s"
  by (simp add: broadcast_shapes_def broadcast_rev_same)

lemma broadcast_shapes_suffix [simp]: "broadcast_shapes (pre @ s) s = Some (pre @ s)"
  by (simp add: broadcast_shapes_def broadcast_rev_prefix)

lemma upt_0_2: "[0..<2] = [0, Suc 0]"
  by (simp add: numeral_2_eq_2)

lemma set_indices: "set (indices s) = {idx. valid_index s idx}"
  by (induction s) auto

lemma length_indices: "length (indices s) = prod_list s"
  by (induction s) (auto simp: length_concat comp_def sum_list_triv)

lemma sum_list_sort: "sum_list (sort (xs :: real list)) = sum_list xs"
proof -
  have "sum_mset (mset (sort xs)) = sum_mset (mset xs)" by simp
  then show ?thesis by (simp only: sum_mset_sum_list)
qed

lemma sum_list_nth_upt: "(\<Sum>k\<leftarrow>[0..<length xs]. xs ! k) = sum_list (xs :: real list)"
  by (simp add: map_nth)

lemma sort_nth_le_last:
  fixes xs :: "real list"
  assumes "i < length xs"
  shows "sort xs ! i \<le> sort xs ! (length xs - 1)"
  using assms by (intro sorted_nth_mono) auto

section \<open>The Pair Reducer\<close>

lemma sort_dim0_shape [simp]: "shape (sort_dim0 a) = shape a"
  by (simp add: sort_dim0_def split: list.splits)

lemma sort_dim0_elem:
  "shape a = n # rest \<Longrightarrow> i < n \<Longrightarrow> elem (sort_dim0 a) (i # idx) = sort (column a idx) ! i"
  by (simp add: sort_dim0_def)

lemma length_column [simp]: "shape a = n # rest \<Longrightarrow> length (column a idx) = n"
  by (simp add: column_def)

lemma upwind_mask_all:
  assumes "shape mp = n # rest" "0 < n" "0 < f"
  shows "\<exists>keep. upwind_mask (sort_dim0 mp) f = Inr keep \<and> shape keep = n # rest \<and>
           (\<forall>idx i. valid_index rest idx \<and> i < n \<longrightarrow> elem keep (i # idx))"
proof -
  have le: "sort (column mp idx) ! i \<le> sort (column mp idx) ! (n - 1)" if "i < n" for i idx
    using sort_nth_le_last[of i "column mp idx"] that assms(1) by simp
  have "sort (column mp idx) ! i - sort (column mp idx) ! (n - Suc 0) < f" if "i < n" for i idx
    using le[OF that, of idx] assms(3) by simp
  then show ?thesis
    using assms
    by (simp add: upwind_mask_def select_last_def select_dim_def ndim_def binop_def map_tensor_def
        broadcast_shapes_suffix[of "[n]" rest, simplified] sort_dim0_elem)
qed

lemma sum_sorted_column:
  fixes g :: "real \<Rightarrow> real"
  assumes "shape mp = n # rest"
  shows "(\<Sum>k\<leftarrow>[0..<n]. g (sort (column mp idx) ! k)) = sum_list (map g (column mp idx))"
proof -
  have "(\<Sum>k\<leftarrow>[0..<n]. g (sort (column mp idx) ! k)) = sum_list (map g (sort (column mp idx)))"
    using assms by (intro arg_cong[where f=sum_list] nth_equalityI) auto
  also have "\<dots> = sum_mset (mset (map g (sort (column mp idx))))"
    by (simp only: sum_mset_sum_list)
  also have "\<dots> = sum_mset (mset (map g (column mp idx)))"
    by simp
  finally show ?thesis by (simp only: sum_mset_sum_list)
qed

lemma apply_update_value:
  assumes "shape mp = n # rest" "0 < n" "0 < f" "int (length rest) - 2 \<noteq> 0"
  shows "\<exists>out. apply_update mp f = Inr out \<and> shape out = rest \<and>
           (\<forall>idx. valid_index rest idx \<longrightarrow>
              elem out idx = (1 / real_of_int (int (length rest) - 2)) *
                 (pair_sum mp idx + sqrt (max 0 ((pair_sum mp idx)\<^sup>2
                     - real_of_int (int (length rest) - 2) * (pair_sum_sq mp idx - f\<^sup>2)))))"
proof -
  obtain keep where k: "upwind_mask (sort_dim0 mp) f = Inr keep" "shape keep = n # rest"
      "\<And>idx i. valid_index rest idx \<Longrightarrow> i < n \<Longrightarrow> elem keep (i # idx)"
    using upwind_mask_all[OF assms(1-3)] by blast
  have v: "valid_index rest idx \<Longrightarrow> k < n \<Longrightarrow> valid_index (n # rest) (k # idx)" for k idx
    by simp
  have s1: "valid_index rest idx \<Longrightarrow>
     (\<Sum>k\<leftarrow>[0..<n]. elem (sort_dim0 mp) (broadcast_index (n # rest) (k # idx)) *
         of_bool (elem keep (broadcast_index (n # rest) (k # idx)))) = pair_sum mp idx" for idx
  proof -
    assume a: "valid_index rest idx"
    have "(\<Sum>k\<leftarrow>[0..<n]. elem (sort_dim0 mp) (broadcast_index (n # rest) (k # idx)) *
         of_bool (elem keep (broadcast_index (n # rest) (k # idx))))
       = (\<Sum>k\<leftarrow>[0..<n]. sort (column mp idx) ! k)"
      by (rule arg_cong[where f=sum_list], rule map_cong)
         (use a k(3) assms(1) in \<open>auto simp: broadcast_index_valid[OF v] sort_dim0_elem\<close>)
    then show ?thesis
      using sum_sorted_column[OF assms(1), of "\<lambda>x. x" idx] by (simp add: pair_sum_def)
  qed
  have s2: "valid_index rest idx \<Longrightarrow>
     (\<Sum>k\<leftarrow>[0..<n]. (elem (sort_dim0 mp) (broadcast_index (n # rest) (k # idx)) *
         of_bool (elem keep (broadcast_index (n # rest) (k # idx))))\<^sup>2) = pair_sum_sq mp idx" for idx
  proof -
    assume a: "valid_index rest idx"
    have "(\<Sum>k\<leftarrow>[0..<n]. (elem (sort_dim0 mp) (broadcast_index (n # rest) (k # idx)) *
         of_bool (elem keep (broadcast_index (n # rest) (k # idx))))\<^sup>2)
       = (\<Sum>k\<leftarrow>[0..<n]. (sort (column mp idx) ! k)\<^sup>2)"
      by (rule arg_cong[where f=sum_list], rule map_cong)
         (use a k(3) assms(1) in \<open>auto simp: broadcast_index_valid[OF v] sort_dim0_elem\<close>)
    then show ?thesis
      using sum_sorted_column[OF assms(1), of "\<lambda>x. x\<^sup>2" idx] by (simp add: pair_sum_sq_def)
  qed
  show ?thesis
    using assms k(1,2) s1 s2
    by (simp add: apply_update_def Let_def ndim_def binop_def sum_dim_def map_tensor_def)
qed

text \<open>
  C9. For a stack of at least one pair minimum per pixel, a step length \<open>f > 0\<close> and a
  number of spatial dimensions \<open>d = ndim - 3\<close> other than 0 (where the division of line 37
  raises), the selection mask of line 32 is true at every entry: after the ascending sort
  every value minus the last one is at most 0. So nothing is discarded, and the result is
  \<open>(S + sqrt (max 0 (S\<^sup>2 - d * (Q - f\<^sup>2)))) / d\<close> for the sum \<open>S\<close> and the sum of squares \<open>Q\<close>
  of all the pair minima of the unsorted stack.
\<close>

theorem upwind_mask_keeps_everything:
  assumes "shape minimum_paired = n # rest" and "0 < n" and "0 < f"
    and "int (length rest) - 2 \<noteq> 0"
  shows "\<exists>keep out.
           upwind_mask (sort_dim0 minimum_paired) f = Inr keep \<and>
           apply_update minimum_paired f = Inr out \<and> shape out = rest \<and>
           (\<forall>idx. valid_index rest idx \<longrightarrow>
              (\<forall>i<n. elem keep (i # idx)) \<and>
              elem out idx =
                (pair_sum minimum_paired idx
                   + sqrt (max 0 ((pair_sum minimum_paired idx)\<^sup>2
                        - real_of_int (int (length rest) - 2) * (pair_sum_sq minimum_paired idx - f\<^sup>2))))
                / real_of_int (int (length rest) - 2))"
proof -
  obtain keep where k: "upwind_mask (sort_dim0 minimum_paired) f = Inr keep"
      "\<forall>idx i. valid_index rest idx \<and> i < n \<longrightarrow> elem keep (i # idx)"
    using upwind_mask_all[OF assms(1-3)] by blast
  obtain out where o: "apply_update minimum_paired f = Inr out" "shape out = rest"
      "\<forall>idx. valid_index rest idx \<longrightarrow>
              elem out idx = (1 / real_of_int (int (length rest) - 2)) *
                 (pair_sum minimum_paired idx + sqrt (max 0 ((pair_sum minimum_paired idx)\<^sup>2
                     - real_of_int (int (length rest) - 2) * (pair_sum_sq minimum_paired idx - f\<^sup>2))))"
    using apply_update_value[OF assms] by blast
  show ?thesis
    using k o by (intro exI[of _ keep] exI[of _ out]) simp
qed

theorem upwind_mask_keeps_everything_witness:
  "\<exists>keep out.
     upwind_mask (sort_dim0 \<lparr>shape = [2, 1, 1, 1, 1], elem = (\<lambda>idx. if idx = [0, 0, 0, 0, 0] then 3 else 4)\<rparr>) 1
       = Inr keep \<and>
     apply_update \<lparr>shape = [2, 1, 1, 1, 1], elem = (\<lambda>idx. if idx = [0, 0, 0, 0, 0] then 3 else 4)\<rparr> 1
       = Inr out \<and>
     elem keep [0, 0, 0, 0, 0] \<and> elem keep [1, 0, 0, 0, 0] \<and> elem out [0, 0, 0, 0] = 4"
  using upwind_mask_keeps_everything
    [of "\<lparr>shape = [2, 1, 1, 1, 1], elem = (\<lambda>idx. if idx = [0, 0, 0, 0, 0] then 3 else 4)\<rparr>"
        2 "[1, 1, 1, 1]" 1]
  by (auto simp: pair_sum_def pair_sum_sq_def column_def upt_0_2)

text \<open>
  C5. A stack with a single pair minimum \<open>v\<close> at a pixel, a step length \<open>f > 0\<close> and
  \<open>n > 0\<close> spatial dimensions: the Pair Reducer returns, at that pixel,
  \<open>(v + sqrt (max 0 (v\<^sup>2 - n * (v\<^sup>2 - f\<^sup>2)))) / n\<close>. The witness takes \<open>n = 2\<close>, \<open>f = 1\<close>,
  \<open>v = 1\<close>, where the result is 1.
\<close>

theorem pair_reducer_single_pair:
  assumes "shape minimum_paired = 1 # rest" and "length rest = 2 + n" and "0 < n" and "0 < f"
  shows "\<exists>out. apply_update minimum_paired f = Inr out \<and> shape out = rest \<and>
           (\<forall>idx. valid_index rest idx \<longrightarrow>
              elem out idx =
                (elem minimum_paired (0 # idx)
                   + sqrt (max 0 ((elem minimum_paired (0 # idx))\<^sup>2
                        - real n * ((elem minimum_paired (0 # idx))\<^sup>2 - f\<^sup>2))))
                / real n)"
proof -
  have d: "real (length rest) - 2 = real n" "int (length rest) - 2 \<noteq> 0"
    using assms(2,3) by simp_all
  have "pair_sum minimum_paired idx = elem minimum_paired (0 # idx)"
       "pair_sum_sq minimum_paired idx = (elem minimum_paired (0 # idx))\<^sup>2" for idx
    using assms(1) by (simp_all add: pair_sum_def pair_sum_sq_def column_def)
  then show ?thesis
    using apply_update_value[OF assms(1) _ assms(4) d(2)] by (simp add: d(1))
qed

theorem pair_reducer_single_pair_witness:
  "\<exists>out. apply_update \<lparr>shape = [1, 1, 1, 1, 1], elem = (\<lambda>idx. 1)\<rparr> 1 = Inr out \<and>
     shape out = [1, 1, 1, 1] \<and> elem out [0, 0, 0, 0] = 1"
  using pair_reducer_single_pair
    [of "\<lparr>shape = [1, 1, 1, 1, 1], elem = (\<lambda>idx. 1)\<rparr>" "[1, 1, 1, 1]" 2 1]
  by simp

section \<open>The Single-Step Solver\<close>

lemma ap21: "antipodal_pairs 2 1 = [(1, 7), (3, 5)]" by code_simp
lemma ap22: "antipodal_pairs 2 2 = [(0, 8), (2, 6)]" by code_simp
lemma ap31: "antipodal_pairs 3 1 = [(4, 22), (10, 16), (12, 14)]" by code_simp
lemma ap32: "antipodal_pairs 3 2 = [(1, 25), (3, 23), (5, 21), (7, 19), (9, 17), (11, 15)]" by code_simp
lemma ap33: "antipodal_pairs 3 3 = [(0, 26), (2, 24), (6, 20), (8, 18)]" by code_simp

lemma mapE_map: "mapE g (map h xs) = mapE (\<lambda>x. g (h x)) xs"
  by (induction xs) simp_all

lemma pair_minimum_reference:
  "pair_minimum cc ind i = reference_pair_minimum cc (ind ! i, ind ! (length ind - (i + 1)))"
  by (simp add: pair_minimum_def reference_pair_minimum_def)

lemma class_update_reference:
  assumes "map (\<lambda>i. (ind ! i, ind ! (length ind - (i + 1)))) [0..<length ind div 2] = antipodal_pairs d m"
    and "f = sqrt (real m)"
  shows "bindE (class_update cc phi ind f) k =
     bindE (mapE (reference_pair_minimum cc) (antipodal_pairs d m)) (\<lambda>mins.
     bindE (stack mins) (\<lambda>stacked.
     bindE (apply_update stacked (sqrt (real m))) (\<lambda>partial.
     bindE (binop_inplace (\<lambda>x y. x * y) phi partial) k)))"
proof -
  have "mapE (pair_minimum cc ind) [0..<length ind div 2] = mapE (reference_pair_minimum cc) (antipodal_pairs d m)"
    unfolding assms(1)[symmetric] mapE_map pair_minimum_reference ..
  then show ?thesis
    by (simp add: class_update_def Let_def assms(2) bindE_def split: sum.splits)
qed

lemma upt_0_3: "[0..<3] = [0, 1, 2]" by code_simp
lemma upt_0_4: "[0..<4] = [0, 1, 2, 3]" by code_simp
lemma upt_0_6: "[0..<6] = [0, 1, 2, 3, 4, 5]" by code_simp
lemma upt_1_3: "[Suc 0..<3] = [Suc 0, 2]" by code_simp
lemma upt_1_4: "[Suc 0..<4] = [Suc 0, 2, 3]" by code_simp

lemma ap21': "antipodal_pairs 2 (Suc 0) = [(Suc 0, 7), (3, 5)]" using ap21 by simp
lemma ap31': "antipodal_pairs 3 (Suc 0) = [(4, 22), (10, 16), (12, 14)]" using ap31 by simp
lemma ap32': "antipodal_pairs 3 2 = [(Suc 0, 25), (3, 23), (5, 21), (7, 19), (9, 17), (11, 15)]" using ap32 by simp

lemma class_loop_2d:
  "class_loop cc phi (zip (tl index_list_2d) (tl factors_2d)) = reference_loop cc phi 2 [Suc 0..<3]"
  apply (simp add: index_list_2d_def factors_2d_def upt_1_3)
  apply (subst class_update_reference[where d=2 and m="Suc 0"])
    apply (simp add: ap21' upt_0_2)
   apply simp
  apply (subst class_update_reference[where d=2 and m=2])
    apply (simp add: ap22 upt_0_2)
   apply simp
  apply simp
  done

lemma class_loop_3d:
  "class_loop cc phi (zip (tl index_list_3d) (tl factors_3d)) = reference_loop cc phi 3 [Suc 0..<4]"
  apply (simp add: index_list_3d_def factors_3d_def upt_1_4)
  apply (subst class_update_reference[where d=3 and m="Suc 0"])
    apply (simp add: ap31' upt_0_3)
   apply simp
  apply (subst class_update_reference[where d=3 and m=2])
    apply (simp add: ap32' upt_0_6)
   apply simp
  apply (subst class_update_reference[where d=3 and m=3])
    apply (simp add: ap33 upt_0_4)
   apply simp
  apply simp
  done

lemma reference_loop_empty_stack:
  assumes "shape cc ! 2 = 0" "ndim cc = 5 \<or> ndim cc = 6"
  shows "reference_loop cc phi (ndim cc - 3) [Suc 0..<Suc (ndim cc - 3)] = Inl IndexError"
  using assms
  by (auto simp: upt_1_3 upt_1_4 ap21' ap31' reference_pair_minimum_def select_dim_def simp del: upt_Suc)

text \<open>
  C7. On every neighbour stack the Single-Step Solver is the reference definition; on a
  stack of spatial rank 2 or 3 (five or six axes): the accumulator starts at 1, the
  direction classes are taken by increasing step length \<open>sqrt m\<close>, each class is the list
  of antipodal index pairs of that length, whose minima are stacked, reduced and
  multiplied into the accumulator, and the result is the square root. In 2D the pairs are
  (1, 7), (3, 5) for \<open>f = 1\<close> and (0, 8), (2, 6) for \<open>f = sqrt 2\<close>, and index 4 is the
  centre.
\<close>

theorem single_step_equals_reference:
  "eikonal_single_step connected_components = single_step_reference connected_components
   \<and> antipodal_pairs 2 1 = [(1, 7), (3, 5)] \<and> antipodal_pairs 2 2 = [(0, 8), (2, 6)]
   \<and> vector_direction_rows 2 ! 4 = [0, 0]"
proof -
  have "eikonal_single_step connected_components = single_step_reference connected_components"
  proof (cases "ndim connected_components = 5 \<or> ndim connected_components = 6")
    case False
    then show ?thesis
      by (auto simp: eikonal_single_step_def single_step_reference_def Let_def)
  next
    case rank: True
    show ?thesis
    proof (cases "shape connected_components ! 2 = 0")
      case True
      then show ?thesis
        using rank reference_loop_empty_stack[OF True rank]
        by (auto simp: eikonal_single_step_def single_step_reference_def Let_def select_dim_def
            simp del: upt_Suc)
    next
      case False
      then show ?thesis
        using rank
        by (auto simp: eikonal_single_step_def single_step_reference_def Let_def select_dim_def
            ones_like_def class_loop_2d class_loop_3d simp del: upt_Suc)
    qed
  qed
  moreover have "vector_direction_rows 2 ! 4 = [0, 0]"
    by code_simp
  ultimately show ?thesis
    by (simp only: ap21 ap22 simp_thms)
qed

theorem single_step_equals_reference_witness:
  "eikonal_single_step \<lparr>shape = [1, 1, 9, 2, 2], elem = (\<lambda>idx. 1)\<rparr>
     = single_step_reference \<lparr>shape = [1, 1, 9, 2, 2], elem = (\<lambda>idx. 1)\<rparr>"
  using single_step_equals_reference [of "\<lparr>shape = [1, 1, 9, 2, 2], elem = (\<lambda>idx. 1)\<rparr>"]
  by simp

section \<open>The Fixed-Point Driver\<close>

lemma broadcast_rev_ones:
  "list_all2 (\<lambda>x y. y = x \<or> y = 1) xs ys \<Longrightarrow> broadcast_rev xs ys = Some xs"
  by (induction xs ys rule: list_all2_induct) auto

lemma broadcast_shapes_ones:
  "list_all2 (\<lambda>x y. y = x \<or> y = 1) s1 s2 \<Longrightarrow> broadcast_shapes s1 s2 = Some s1"
  by (simp add: broadcast_shapes_def broadcast_rev_ones)

lemma broadcast_shapes_axis2 [simp]:
  "broadcast_shapes (B # C # K # sizes) (B # C # Suc 0 # sizes) = Some (B # C # K # sizes)"
  by (rule broadcast_shapes_ones) (simp add: list_all2_same)

lemma broadcast_index_axis2:
  assumes "valid_index (B # C # K # sizes) (b # c # k # pos)"
  shows "broadcast_index (B # C # Suc 0 # sizes) (b # c # k # pos) = b # c # 0 # pos"
proof -
  have "valid_index sizes pos" "b < B" "c < C" using assms by auto
  then show ?thesis
    using map2_broadcast_id'[of pos sizes]
    by (auto simp: broadcast_index_def valid_index_def list_all2_lengthD)
qed

lemma binary_convolution_ok:
  assumes "shape a = B # C # sizes" "length sizes = 2 \<or> length sizes = 3"
  shows "binary_convolution a =
     Inr \<lparr>shape = B # C # 3 ^ length sizes # sizes,
          elem = (\<lambda>idx. case idx of
                           b # c # k # pos \<Rightarrow> elem a (b # c # neighbour_position sizes k pos)
                         | _ \<Rightarrow> elem a idx)\<rparr>"
  using assms by (simp add: binary_convolution_def ndim_def Let_def)

lemma affinity_mask_of_ok:
  assumes "shape imask = B # C # sizes" "length sizes = 2 \<or> length sizes = 3"
  shows "\<exists>aff. affinity_mask_of imask = Inr aff \<and> shape aff = B # C # 3 ^ length sizes # sizes \<and>
          (\<forall>b c k pos. valid_index (B # C # 3 ^ length sizes # sizes) (b # c # k # pos) \<longrightarrow>
               elem aff (b # c # k # pos) =
                 (elem imask (b # c # neighbour_position sizes k pos) = elem imask (b # c # pos)
                  \<and> elem imask (b # c # pos) > 0))"
  using assms
  by (auto simp add: affinity_mask_of_def binary_convolution_ok[OF assms] unsqueeze_def ndim_def binop_def
       masked_fill_def map_tensor_def broadcast_index_axis2 simp del: valid_index_Cons)

lemma mapE_ok:
  assumes "\<forall>x\<in>set xs. \<exists>y. g x = Inr y \<and> P y"
  shows "\<exists>ys. mapE g xs = Inr ys \<and> length ys = length xs \<and> (\<forall>y\<in>set ys. P y)"
  using assms
proof (induction xs)
  case Nil
  then show ?case by simp
next
  case (Cons x xs)
  then obtain y ys where "g x = Inr y" "P y" "mapE g xs = Inr ys" "length ys = length xs" "\<forall>y\<in>set ys. P y"
    by auto
  then show ?case by simp
qed

lemma stack_ok:
  assumes "ts \<noteq> []" "\<forall>a\<in>set ts. shape a = s"
  shows "\<exists>st. stack ts = Inr st \<and> shape st = length ts # s"
  using assms by (cases ts) (auto simp: stack_def)

lemma apply_update_ok:
  assumes "shape mp = n # rest" "0 < n" "length rest \<noteq> 2"
  shows "\<exists>out. apply_update mp f = Inr out \<and> shape out = rest"
  using assms
  by (simp add: apply_update_def upwind_mask_def select_last_def select_dim_def Let_def ndim_def
      binop_def sum_dim_def map_tensor_def broadcast_shapes_suffix[of "[n]" rest, simplified])

lemma pair_minimum_ok:
  assumes "shape cc = B # C # K # sizes" "ind ! i < K" "ind ! (length ind - (i + 1)) < K"
  shows "\<exists>m. pair_minimum cc ind i = Inr m \<and> shape m = B # C # sizes"
  using assms by (simp add: pair_minimum_def select_dim_def ndim_def binop_def)

lemma class_update_ok:
  assumes "shape cc = B # C # K # sizes" "\<forall>i\<in>set ind. i < K" "2 \<le> length ind"
    and "length sizes \<noteq> 0" "shape phi = B # C # sizes"
  shows "\<exists>phi'. class_update cc phi ind f = Inr phi' \<and> shape phi' = B # C # sizes"
proof -
  have "\<forall>i\<in>set [0..<length ind div 2]. \<exists>m. pair_minimum cc ind i = Inr m \<and> shape m = B # C # sizes"
    using assms(2,3) by (auto intro!: pair_minimum_ok[OF assms(1)])
  from mapE_ok[OF this] obtain mins where m: "mapE (pair_minimum cc ind) [0..<length ind div 2] = Inr mins"
    "length mins = length ind div 2" "\<forall>a\<in>set mins. shape a = B # C # sizes"
    by auto
  have "mins \<noteq> []" using m(2) assms(3) by (cases mins) auto
  from stack_ok[OF this m(3)] obtain st where st: "stack mins = Inr st" "shape st = length mins # B # C # sizes"
    by auto
  have "0 < length mins" using \<open>mins \<noteq> []\<close> by simp
  from apply_update_ok[OF st(2) this, of f] assms(4)
  obtain u where u: "apply_update st f = Inr u" "shape u = B # C # sizes" by auto
  show ?thesis
    using m(1) st(1) u assms(5) by (simp add: class_update_def Let_def binop_inplace_def binop_def)
qed

lemma class_loop_ok:
  assumes "shape cc = B # C # K # sizes" "length sizes \<noteq> 0"
    and "\<forall>(ind, f)\<in>set cls. (\<forall>i\<in>set ind. i < K) \<and> 2 \<le> length ind"
    and "shape phi = B # C # sizes"
  shows "\<exists>phi'. class_loop cc phi cls = Inr phi' \<and> shape phi' = B # C # sizes"
  using assms(3,4)
proof (induction cls arbitrary: phi)
  case Nil
  then show ?case by simp
next
  case (Cons cl cls)
  obtain ind f where cl: "cl = (ind, f)" by (cases cl)
  from Cons.prems cl have "\<forall>i\<in>set ind. i < K" "2 \<le> length ind" by auto
  from class_update_ok[OF assms(1) this assms(2) Cons.prems(2), of f]
  obtain phi1 where p: "class_update cc phi ind f = Inr phi1" "shape phi1 = B # C # sizes" by auto
  from Cons.IH[OF _ p(2)] Cons.prems(1) show ?case by (simp add: cl p(1))
qed

lemma eikonal_single_step_ok:
  assumes "shape cc = B # C # K # sizes"
    and "(length sizes = 2 \<and> 9 \<le> K) \<or> (length sizes = 3 \<and> 27 \<le> K)"
  shows "\<exists>T1. eikonal_single_step cc = Inr T1 \<and> shape T1 = B # C # sizes"
proof -
  have c0: "select_dim cc 2 0 = Inr \<lparr>shape = B # C # sizes, elem = (\<lambda>idx. elem cc (take 2 idx @ 0 # drop 2 idx))\<rparr>"
    using assms by (auto simp: select_dim_def ndim_def)
  have nz: "length sizes \<noteq> 0" using assms(2) by auto
  show ?thesis
  proof (cases "length sizes = 2")
    case True
    then have K: "9 \<le> K" using assms(2) by auto
    have "\<forall>(ind, f)\<in>set (zip (tl index_list_2d) (tl factors_2d)). (\<forall>i\<in>set ind. i < K) \<and> 2 \<le> length ind"
      using K by (simp add: index_list_2d_def factors_2d_def)
    from class_loop_ok[OF assms(1) nz this, of "ones_like \<lparr>shape = B # C # sizes, elem = (\<lambda>idx. elem cc (take 2 idx @ 0 # drop 2 idx))\<rparr>"]
    show ?thesis
      using True assms(1)
      by (auto simp: eikonal_single_step_def ndim_def Let_def c0 ones_like_def map_tensor_def)
  next
    case False
    then have K: "27 \<le> K" "length sizes = 3" using assms(2) by auto
    have "\<forall>(ind, f)\<in>set (zip (tl index_list_3d) (tl factors_3d)). (\<forall>i\<in>set ind. i < K) \<and> 2 \<le> length ind"
      using K by (simp add: index_list_3d_def factors_3d_def)
    from class_loop_ok[OF assms(1) nz this, of "ones_like \<lparr>shape = B # C # sizes, elem = (\<lambda>idx. elem cc (take 2 idx @ 0 # drop 2 idx))\<rparr>"]
    show ?thesis
      using K assms(1)
      by (auto simp: eikonal_single_step_def ndim_def Let_def c0 ones_like_def map_tensor_def)
  qed
qed

lemma update_pass_ok:
  assumes "shape T = B # C # sizes" "shape aff = B # C # 3 ^ length sizes # sizes"
    and "shape sem = B # C # sizes" "length sizes = 2 \<or> length sizes = 3"
  shows "\<exists>T2. update_pass aff sem T = Inr T2 \<and> shape T2 = B # C # sizes \<and>
           (\<forall>idx. valid_index (B # C # sizes) idx \<and> \<not> elem sem idx \<longrightarrow> elem T2 idx = 0)"
proof -
  obtain cc where cc: "bindE (binary_convolution T) (\<lambda>nb. binop (\<lambda>x k. x * of_bool k) nb aff) = Inr cc"
     "shape cc = B # C # 3 ^ length sizes # sizes"
    using assms(1,2) by (simp add: binary_convolution_ok[OF assms(1,4)] binop_def)
  have "(length sizes = 2 \<and> 9 \<le> (3::nat) ^ length sizes) \<or> (length sizes = 3 \<and> 27 \<le> (3::nat) ^ length sizes)"
    using assms(4) by auto
  from eikonal_single_step_ok[OF cc(2) this]
  obtain T1 where T1: "eikonal_single_step cc = Inr T1" "shape T1 = B # C # sizes" by auto
  have "update_pass aff sem T = binop_inplace (\<lambda>x k. x * of_bool k) T1 sem"
    using cc(1) T1(1) by (auto simp: update_pass_def bindE_def split: sum.splits)
  then show ?thesis
    using T1(2) assms(3) by (auto simp: binop_inplace_def binop_def simp del: valid_index_Cons)
qed

lemma smooth_ok:
  assumes "shape T2 = B # C # sizes" "shape aff = B # C # K # sizes"  "K = 3 ^ length sizes"
    and "length sizes = 2 \<or> length sizes = 3"
  shows "\<exists>T3. smooth aff T2 = Inr T3 \<and> shape T3 = B # C # sizes \<and>
           (\<forall>b c pos. valid_index (B # C # sizes) (b # c # pos) \<longrightarrow>
              elem T3 (b # c # pos) =
                (\<Sum>k\<leftarrow>[0..<K]. elem T2 (b # c # neighbour_position sizes k pos)
                                  * of_bool (elem aff (b # c # k # pos))) / real K)"
proof -
  have v: "valid_index (B # C # K # sizes) (b # c # k # pos)"
    if "valid_index (B # C # sizes) (b # c # pos)" "k < K" for b c k pos
    using that by simp
  show ?thesis
    using assms
    apply (simp add: smooth_def binary_convolution_ok[OF assms(1,4)] binop_def mean_dim_def sum_dim_def ndim_def
        map_tensor_def del: valid_index_Cons)
    apply (intro allI impI)
    apply (rule arg_cong[where f=sum_list])
    apply (rule map_cong, simp)
    subgoal for b c pos k
      using v[of b c pos k] by (simp del: valid_index_Cons)
    done
qed

lemma sum_list_map_zero:
  fixes g :: "'a \<Rightarrow> real"
  shows "(\<And>x. x \<in> set xs \<Longrightarrow> g x = 0) \<Longrightarrow> sum_list (map g xs) = 0"
  by (induction xs) auto

lemma zero_outside_iff:
  "zero_outside imask T \<longleftrightarrow>
     (\<forall>idx. valid_index (shape imask) idx \<and> elem imask idx \<le> 0 \<longrightarrow> elem T idx = 0)"
  by (auto simp: zero_outside_def set_indices)

lemma mean_all_cong:
  assumes "shape a = shape b" "\<And>idx. valid_index (shape a) idx \<Longrightarrow> elem a idx = elem b idx"
  shows "mean_all a = mean_all b"
proof -
  have "map (elem a) (indices (shape a)) = map (elem b) (indices (shape a))"
    by (rule map_cong) (auto simp: set_indices assms(2))
  then have "elems a = elems b"
    unfolding elems_def assms(1)[symmetric] .
  then show ?thesis
    using assms(1) by (simp add: mean_all_def numel_def)
qed

lemma loop_body_char:
  assumes m: "shape imask = B # C # sizes" "length sizes = 2 \<or> length sizes = 3"
    and a: "affinity_mask_of imask = Inr aff"
    and T: "shape T = B # C # sizes" "shape T0 = B # C # sizes"
  shows "\<exists>T2 T' T0'.
           update_pass aff (map_tensor (\<lambda>x. x > 0) imask) T = Inr T2 \<and>
           loop_body aff (map_tensor (\<lambda>x. x > 0) imask) T T0 t =
             Inr (T', T0', mean_all \<lparr>shape = B # C # sizes, elem = (\<lambda>idx. (elem T2 idx - elem T0 idx)\<^sup>2)\<rparr>) \<and>
           shape T2 = B # C # sizes \<and> shape T' = B # C # sizes \<and> shape T0' = B # C # sizes \<and>
           zero_outside imask T2 \<and> zero_outside imask T' \<and>
           (\<forall>idx. valid_index (B # C # sizes) idx \<longrightarrow> elem T0' idx = elem T' idx) \<and>
           (if t < 1
            then \<forall>b c pos. valid_index (B # C # sizes) (b # c # pos) \<longrightarrow>
                   elem T' (b # c # pos) =
                     (\<Sum>k\<leftarrow>[0..<3 ^ length sizes]. elem T2 (b # c # neighbour_position sizes k pos)
                                  * of_bool (elem aff (b # c # k # pos))) / real (3 ^ length sizes)
            else T' = T2)"
proof -
  let ?sem = "map_tensor (\<lambda>x. x > 0) imask"
  let ?s = "B # C # sizes"
  from affinity_mask_of_ok[OF m] a
  have aff: "shape aff = B # C # 3 ^ length sizes # sizes"
    "\<And>b c k pos. valid_index (B # C # 3 ^ length sizes # sizes) (b # c # k # pos) \<Longrightarrow>
        elem aff (b # c # k # pos) \<Longrightarrow> elem imask (b # c # pos) > 0"
    by auto
  have sem: "shape ?sem = ?s" by (simp add: map_tensor_def m(1))
  from update_pass_ok[OF T(1) aff(1) sem m(2)]
  obtain T2 where T2: "update_pass aff ?sem T = Inr T2" "shape T2 = ?s"
    "\<And>idx. valid_index ?s idx \<Longrightarrow> \<not> elem ?sem idx \<Longrightarrow> elem T2 idx = 0"
    by blast
  have z2: "zero_outside imask T2"
    unfolding zero_outside_iff m(1) using T2(3) by (auto simp: map_tensor_def simp del: valid_index_Cons)
  let ?diff = "\<lparr>shape = ?s,
       elem = (\<lambda>idx. elem T2 (broadcast_index ?s idx) - elem T0 (broadcast_index ?s idx))\<rparr>"
  have d: "binop (\<lambda>x y. x - y) T2 T0 = Inr ?diff"
    using T2(2) T(2) by (simp add: binop_def)
  have e: "mean_all (map_tensor (\<lambda>x. x\<^sup>2) ?diff)
         = mean_all \<lparr>shape = ?s, elem = (\<lambda>idx. (elem T2 idx - elem T0 idx)\<^sup>2)\<rparr>"
    by (rule mean_all_cong) (simp_all add: map_tensor_def del: valid_index_Cons)
  have copy: "\<exists>T0'. binop_inplace (\<lambda>old new. new) T0 X = Inr T0' \<and> shape T0' = ?s \<and>
               (\<forall>idx. valid_index ?s idx \<longrightarrow> elem T0' idx = elem X idx)"
    if "shape X = ?s" for X :: "real tensor"
    using that T(2) by (simp add: binop_inplace_def binop_def del: valid_index_Cons)
  show ?thesis
  proof (cases "t < 1")
    case False
    from copy[OF T2(2)] obtain T0' where c: "binop_inplace (\<lambda>old new. new) T0 T2 = Inr T0'"
      "shape T0' = ?s" "\<forall>idx. valid_index ?s idx \<longrightarrow> elem T0' idx = elem T2 idx" by blast
    have "loop_body aff ?sem T T0 t = Inr (T2, T0', mean_all \<lparr>shape = ?s, elem = (\<lambda>idx. (elem T2 idx - elem T0 idx)\<^sup>2)\<rparr>)"
      using False by (simp add: loop_body_def T2(1) d Let_def e c(1))
    then show ?thesis
      using False T2(1,2) z2 c(2,3) by auto
  next
    case True
    from smooth_ok[OF T2(2) aff(1) refl m(2)]
    obtain T3 where T3: "smooth aff T2 = Inr T3" "shape T3 = ?s"
      "\<And>b c pos. valid_index ?s (b # c # pos) \<Longrightarrow>
          elem T3 (b # c # pos) =
                (\<Sum>k\<leftarrow>[0..<3 ^ length sizes]. elem T2 (b # c # neighbour_position sizes k pos)
                                  * of_bool (elem aff (b # c # k # pos))) / real (3 ^ length sizes)"
      by blast
    have "elem T3 idx = 0" if v: "valid_index ?s idx" and le: "elem imask idx \<le> 0" for idx
    proof -
      obtain b c pos where idx: "idx = b # c # pos" using v by auto
      have "elem T2 (b # c # neighbour_position sizes k pos) * of_bool (elem aff (b # c # k # pos)) = 0"
        if "k \<in> set [0..<3 ^ length sizes]" for k
        using aff(2)[of b c k pos] v le that unfolding idx by auto
      then have "(\<Sum>k\<leftarrow>[0..<3 ^ length sizes]. elem T2 (b # c # neighbour_position sizes k pos)
                                  * of_bool (elem aff (b # c # k # pos))) = 0"
        by (rule sum_list_map_zero)
      then show ?thesis using T3(3)[OF v[unfolded idx]] by (simp add: idx)
    qed
    then have z3: "zero_outside imask T3"
      unfolding zero_outside_iff m(1) by blast
    from copy[OF T3(2)] obtain T0' where c: "binop_inplace (\<lambda>old new. new) T0 T3 = Inr T0'"
      "shape T0' = ?s" "\<forall>idx. valid_index ?s idx \<longrightarrow> elem T0' idx = elem T3 idx" by blast
    have "loop_body aff ?sem T T0 t = Inr (T3, T0', mean_all \<lparr>shape = ?s, elem = (\<lambda>idx. (elem T2 idx - elem T0 idx)\<^sup>2)\<rparr>)"
      using True by (simp add: loop_body_def T2(1) d Let_def e c(1) T3(1))
    then show ?thesis
      using True T2(1,2) z2 z3 T3(2,3) c(2,3) by (intro exI[of _ T2] exI[of _ T3] exI[of _ T0']) simp
  qed
qed

lemma loop_body_ok:
  assumes m: "shape imask = B # C # sizes" "length sizes = 2 \<or> length sizes = 3"
    and a: "affinity_mask_of imask = Inr aff"
    and T: "shape T = B # C # sizes" "shape T0 = B # C # sizes"
  shows "\<exists>T' T0' e. loop_body aff (map_tensor (\<lambda>x. x > 0) imask) T T0 t = Inr (T', T0', e) \<and>
           shape T' = B # C # sizes \<and> shape T0' = B # C # sizes \<and> zero_outside imask T'"
  using loop_body_char[OF assms, of t] by blast

lemma eikonal_loop_ok:
  assumes m: "shape imask = B # C # sizes" "length sizes = 2 \<or> length sizes = 3"
    and a: "affinity_mask_of imask = Inr aff"
    and T: "shape T = B # C # sizes" "shape T0 = B # C # sizes"
  shows "\<exists>T' T0' t' e'.
           eikonal_loop aff (map_tensor (\<lambda>x. x > 0) imask) eps min_steps T T0 t e = Inr (T', T0', t', e') \<and>
           shape T' = B # C # sizes \<and> shape T0' = B # C # sizes \<and>
           \<not> (float_gt e' eps \<and> t' < min_steps) \<and>
           ((t' = t \<and> T' = T \<and> e' = e) \<or> (t < t' \<and> zero_outside imask T'))"
  using T
proof (induction "nat (min_steps - t)" arbitrary: T T0 t e rule: less_induct)
  case less
  show ?case
  proof (cases "float_gt e eps \<and> t < min_steps")
    case False
    then show ?thesis
      using less.prems by (subst eikonal_loop.simps) auto
  next
    case True
    from loop_body_ok[OF m a less.prems, of t]
    obtain T1 T01 e1 where b: "loop_body aff (map_tensor (\<lambda>x. x > 0) imask) T T0 t = Inr (T1, T01, e1)"
      "shape T1 = B # C # sizes" "shape T01 = B # C # sizes" "zero_outside imask T1"
      by blast
    have "nat (min_steps - (t + 1)) < nat (min_steps - t)" using True by auto
    from less.hyps[OF this b(2,3), of e1]
    obtain T' T0' t' e' where r:
      "eikonal_loop aff (map_tensor (\<lambda>x. x > 0) imask) eps min_steps T1 T01 (t + 1) e1 = Inr (T', T0', t', e')"
      "shape T' = B # C # sizes" "shape T0' = B # C # sizes" 
      "\<not> (float_gt e' eps \<and> t' < min_steps)"
      "(t' = t + 1 \<and> T' = T1 \<and> e' = e1) \<or> (t + 1 < t' \<and> zero_outside imask T')"
      by blast
    have "eikonal_loop aff (map_tensor (\<lambda>x. x > 0) imask) eps min_steps T T0 t e = Inr (T', T0', t', e')"
      using True b(1) r(1) by (subst eikonal_loop.simps) simp
    moreover have "t < t' \<and> zero_outside imask T'"
      using r(5) b(4) by auto
    ultimately show ?thesis using r(2,3,4) by blast
  qed
qed

lemma solve_eikonal_run_ok:
  assumes m: "shape imask = B # C # sizes" "length sizes = 2 \<or> length sizes = 3"
  shows "\<exists>T T0 t e.
           solve_eikonal_run imask eps min_steps = Inr (T, T0, t, e) \<and>
           shape T = shape imask \<and>
           \<not> (float_gt e eps \<and> t < min_steps) \<and>
           ((t = 0 \<and> T = ones_like imask \<and> e = PosInf) \<or> (0 < t \<and> zero_outside imask T))"
proof -
  obtain aff where a: "affinity_mask_of imask = Inr aff"
    using affinity_mask_of_ok[OF m] by blast
  have s: "shape (ones_like imask) = B # C # sizes" by (simp add: ones_like_def m(1))
  from eikonal_loop_ok[OF m a s s, of eps min_steps 0 PosInf]
  show ?thesis
    by (auto simp: solve_eikonal_run_def a Let_def m(1))
qed

lemma mapE_nth:
  assumes "\<forall>i<length xs. \<exists>y. g (xs ! i) = Inr y \<and> P i y"
  shows "\<exists>ys. mapE g xs = Inr ys \<and> length ys = length xs \<and> (\<forall>i<length xs. P i (ys ! i))"
  using assms
proof (induction xs arbitrary: P)
  case Nil
  then show ?case by simp
next
  case (Cons x xs)
  from Cons.prems obtain y where y: "g x = Inr y" "P 0 y" by fastforce
  have "\<forall>i<length xs. \<exists>y. g (xs ! i) = Inr y \<and> P (Suc i) y"
    using Cons.prems by fastforce
  from Cons.IH[OF this] obtain ys where ys: "mapE g xs = Inr ys" "length ys = length xs"
    "\<forall>i<length xs. P (Suc i) (ys ! i)" by blast
  show ?case
    using y ys by (auto simp: nth_Cons split: nat.splits)
qed

lemma pair_minimum_value:
  assumes "shape cc = B # C # K # sizes" "ind ! i < K" "ind ! (length ind - (i + 1)) < K"
  shows "\<exists>m. pair_minimum cc ind i = Inr m \<and> shape m = B # C # sizes \<and>
           (\<forall>idx. valid_index (B # C # sizes) idx \<longrightarrow> elem m idx = pair_min_at cc ind idx i)"
  using assms
  by (simp add: pair_minimum_def select_dim_def ndim_def binop_def pair_min_at_def del: valid_index_Cons)

lemma class_update_value:
  assumes "shape cc = B # C # K # sizes" "\<forall>i\<in>set ind. i < K" "2 \<le> length ind"
    and "length sizes \<noteq> 0" "shape phi = B # C # sizes" "0 < f"
  shows "\<exists>phi'. class_update cc phi ind f = Inr phi' \<and> shape phi' = B # C # sizes \<and>
           (\<forall>idx. valid_index (B # C # sizes) idx \<longrightarrow>
              elem phi' idx = elem phi idx * class_value cc ind f idx)"
proof -
  let ?s = "B # C # sizes"
  let ?n = "length ind div 2"
  have "\<forall>i<length [0..<?n]. \<exists>m. pair_minimum cc ind ([0..<?n] ! i) = Inr m \<and>
          (shape m = ?s \<and> (\<forall>idx. valid_index ?s idx \<longrightarrow> elem m idx = pair_min_at cc ind idx i))"
  proof (intro allI impI)
    fix i assume "i < length [0..<?n]"
    then have i: "i < ?n" by simp
    then have "ind ! i < K" "ind ! (length ind - (i + 1)) < K"
      using assms(2,3) by auto
    from pair_minimum_value[OF assms(1) this] show "\<exists>m. pair_minimum cc ind ([0..<?n] ! i) = Inr m \<and>
          (shape m = ?s \<and> (\<forall>idx. valid_index ?s idx \<longrightarrow> elem m idx = pair_min_at cc ind idx i))"
      using i by (simp del: valid_index_Cons)
  qed
  from mapE_nth[OF this] obtain mins where m: "mapE (pair_minimum cc ind) [0..<?n] = Inr mins"
    "length mins = ?n" 
    "\<forall>i<?n. shape (mins ! i) = ?s \<and> (\<forall>idx. valid_index ?s idx \<longrightarrow> elem (mins ! i) idx = pair_min_at cc ind idx i)"
    by auto
  have ne: "mins \<noteq> []" using m(2) assms(3) by (cases mins) auto
  have sh: "\<forall>a\<in>set mins. shape a = ?s"
    using m(2,3) by (auto simp: in_set_conv_nth)
  define st where "st = \<lparr>shape = length mins # ?s,
       elem = (\<lambda>idx. case idx of [] \<Rightarrow> 0 | i # r \<Rightarrow> if i < length mins then elem (mins ! i) r else 0)\<rparr>"
  have st: "stack mins = Inr st" "shape st = ?n # ?s"
    using ne sh m(2) by (cases mins; auto simp: stack_def st_def)+
  have col: "column st idx = map (pair_min_at cc ind idx) [0..<?n]" if "valid_index ?s idx" for idx
    unfolding column_def using that m(2,3) by (auto simp: st_def simp del: valid_index_Cons)
  have "0 < ?n" using assms(3) by auto
  have d0: "int (length ?s) - 2 \<noteq> 0" using assms(4) by simp
  from apply_update_value[OF st(2) \<open>0 < ?n\<close> assms(6) d0]
  obtain u where u: "apply_update st f = Inr u" "shape u = ?s"
    "\<forall>idx. valid_index ?s idx \<longrightarrow>
              elem u idx = (1 / real_of_int (int (length ?s) - 2)) *
                 (pair_sum st idx + sqrt (max 0 ((pair_sum st idx)\<^sup>2
                     - real_of_int (int (length ?s) - 2) * (pair_sum_sq st idx - f\<^sup>2))))"
    by blast
  have uv: "elem u idx = class_value cc ind f idx" if v: "valid_index ?s idx" for idx
  proof -
    have l: "length idx = length ?s" using v by (rule valid_index_length)
    show ?thesis
      using u(3) v col[OF v] l
      by (simp add: class_value_def Let_def pair_sum_def pair_sum_sq_def del: valid_index_Cons)
  qed
  show ?thesis
    using m(1) st(1) u(1,2) assms(5) uv
    by (simp add: class_update_def Let_def binop_inplace_def binop_def del: valid_index_Cons)
qed

lemma eikonal_single_step_value_2d:
  assumes "shape cc = [B, C, 9, X, Y]"
  shows "\<exists>T1. eikonal_single_step cc = Inr T1 \<and> shape T1 = [B, C, X, Y] \<and>
           (\<forall>idx. valid_index [B, C, X, Y] idx \<longrightarrow>
              elem T1 idx = sqrt (class_value cc [1, 3, 5, 7] 1 idx * class_value cc [0, 2, 6, 8] (sqrt 2) idx))"
proof -
  let ?c0 = "\<lparr>shape = [B, C, X, Y], elem = (\<lambda>idx. elem cc (take 2 idx @ 0 # drop 2 idx))\<rparr>"
  have c0: "select_dim cc 2 0 = Inr ?c0"
    using assms by (auto simp: select_dim_def ndim_def)
  from class_update_value[OF assms, of "[1, 3, 5, 7]" "ones_like ?c0" 1]
  obtain p1 where p1: "class_update cc (ones_like ?c0) [1, 3, 5, 7] 1 = Inr p1" "shape p1 = [B, C, X, Y]"
    "\<forall>idx. valid_index [B, C, X, Y] idx \<longrightarrow> elem p1 idx = class_value cc [1, 3, 5, 7] 1 idx"
    by (auto simp: ones_like_def simp del: valid_index_Cons)
  from class_update_value[OF assms, of "[0, 2, 6, 8]" p1 "sqrt 2"] p1(2)
  obtain p2 where p2: "class_update cc p1 [0, 2, 6, 8] (sqrt 2) = Inr p2" "shape p2 = [B, C, X, Y]"
    "\<forall>idx. valid_index [B, C, X, Y] idx \<longrightarrow> elem p2 idx = elem p1 idx * class_value cc [0, 2, 6, 8] (sqrt 2) idx"
    by (auto simp del: valid_index_Cons)
  have "eikonal_single_step cc = Inr (map_tensor sqrt p2)"
    using assms p1(1) p2(1)
    by (simp add: eikonal_single_step_def ndim_def c0 Let_def index_list_2d_def factors_2d_def)
  then show ?thesis
    using p2(2,3) p1(3) by (simp add: map_tensor_def del: valid_index_Cons)
qed

lemma class_value_cong:
  assumes "\<And>j. j \<in> set ind \<Longrightarrow> elem cc (take 2 idx @ j # drop 2 idx) = elem cc' (take 2 idx @ j # drop 2 idx)"
    and "2 \<le> length ind"
  shows "class_value cc ind f idx = class_value cc' ind f idx"
proof -
  have "map (pair_min_at cc ind idx) [0..<length ind div 2] = map (pair_min_at cc' ind idx) [0..<length ind div 2]"
    by (rule map_cong) (use assms in \<open>auto simp: pair_min_at_def\<close>)
  then show ?thesis unfolding class_value_def by (simp only:)
qed

lemma update_pass_value_2d:
  assumes "shape T = [B, C, X, Y]" "shape aff = [B, C, 9, X, Y]" "shape sem = [B, C, X, Y]"
  shows "\<exists>T2. update_pass aff sem T = Inr T2 \<and> shape T2 = [B, C, X, Y] \<and>
           (\<forall>idx. valid_index [B, C, X, Y] idx \<longrightarrow>
              elem T2 idx =
                sqrt (class_value (masked_neighbours aff T) [1, 3, 5, 7] 1 idx
                      * class_value (masked_neighbours aff T) [0, 2, 6, 8] (sqrt 2) idx)
                * of_bool (elem sem idx))"
proof -
  let ?s = "[B, C, X, Y]"
  let ?cc = "\<lparr>shape = [B, C, 9, X, Y],
      elem = (\<lambda>idx. (case broadcast_index [B, C, 9, X, Y] idx of
                           b # c # k # pos \<Rightarrow> elem T (b # c # neighbour_position [X, Y] k pos)
                         | _ \<Rightarrow> elem T (broadcast_index [B, C, 9, X, Y] idx))
                  * of_bool (elem aff (broadcast_index [B, C, 9, X, Y] idx)))\<rparr>"
  have cc: "bindE (binary_convolution T) (\<lambda>nb. binop (\<lambda>x k. x * of_bool k) nb aff) = Inr ?cc"
    using assms(1,2) by (simp add: binary_convolution_ok[OF assms(1)] binop_def)
  from eikonal_single_step_value_2d[of ?cc B C X Y]
  obtain T1 where T1: "eikonal_single_step ?cc = Inr T1" "shape T1 = ?s"
    "\<forall>idx. valid_index ?s idx \<longrightarrow>
       elem T1 idx = sqrt (class_value ?cc [1, 3, 5, 7] 1 idx * class_value ?cc [0, 2, 6, 8] (sqrt 2) idx)"
    by auto
  have agree: "elem ?cc (take 2 idx @ j # drop 2 idx) = elem (masked_neighbours aff T) (take 2 idx @ j # drop 2 idx)"
    if "valid_index ?s idx" "j < 9" for idx j
  proof -
    from that obtain b c x y where idx: "idx = [b, c, x, y]" "b < B" "c < C" "x < X" "y < Y" by auto
    have "valid_index [B, C, 9, X, Y] [b, c, j, x, y]" using idx that(2) by simp
    then show ?thesis
      unfolding idx by (simp add: masked_neighbours_def assms(1) del: valid_index_Cons)
  qed
  have cv: "class_value ?cc ind f idx = class_value (masked_neighbours aff T) ind f idx"
    if "valid_index ?s idx" "\<forall>j\<in>set ind. j < 9" "2 \<le> length ind" for idx ind f
    by (rule class_value_cong) (use that agree in auto)
  have "update_pass aff sem T = binop_inplace (\<lambda>x k. x * of_bool k) T1 sem"
    using cc T1(1) by (auto simp: update_pass_def bindE_def split: sum.splits)
  then show ?thesis
    using T1(2,3) assms(3) cv
    by (auto simp: binop_inplace_def binop_def simp del: valid_index_Cons)
qed

lemma upt_0_9: "[0..<9] = [0, 1, 2, 3, 4, 5, 6, 7, 8]" by code_simp

lemma np_table:
  "map (\<lambda>k. neighbour_position [1, 2] k [0, 0]) [0, 1, 2, 3, 4, 5, 6, 7, 8]
     = [[0, 0], [0, 0], [0, 1], [0, 0], [0, 0], [0, 1], [0, 0], [0, 0], [0, 1]]"
  by code_simp

text \<open>
  C2 as stated fails on the mask of two pixels: at the instance pixel six of the nine
  directions are valid and the field after the update is 1 there, so the mean over the
  valid directions is 1, but the first pass returns 6 / 9.
\<close>

theorem smoothing_divides_by_all_directions_counterexample:
  "\<exists>aff T2 T' T0' e.
     affinity_mask_of two_pixel_mask = Inr aff \<and>
     update_pass aff (map_tensor (\<lambda>x. x > 0) two_pixel_mask) (ones_like two_pixel_mask) = Inr T2 \<and>
     loop_body aff (map_tensor (\<lambda>x. x > 0) two_pixel_mask) (ones_like two_pixel_mask) (ones_like two_pixel_mask) 0
       = Inr (T', T0', e) \<and>
     elem T' [0, 0, 0, 0] = 2 / 3 \<and> valid_direction_mean aff T2 [0, 0, 0, 0] = 1"
proof -
  let ?M = two_pixel_mask
  let ?sem = "map_tensor (\<lambda>x. x > 0) ?M"
  have sh: "shape ?M = 1 # 1 # [1, 2]" by (simp add: two_pixel_mask_def)
  from affinity_mask_of_ok[OF sh]
  obtain aff where aff: "affinity_mask_of ?M = Inr aff" "shape aff = [1, 1, 9, 1, 2]"
    "\<And>k. k < 9 \<Longrightarrow> elem aff [0, 0, k, 0, 0] = (neighbour_position [1, 2] k [0, 0] = [0, 0])"
    by (auto simp: two_pixel_mask_def)
  have affv: "map (\<lambda>k. elem aff [0, 0, k, 0, 0]) [0, 1, 2, 3, 4, 5, 6, 7, 8]
      = [True, True, False, True, True, False, True, True, False]"
    using np_table by (simp add: aff(3))
  have so: "shape (ones_like ?M) = 1 # 1 # [1, 2]" by (simp add: ones_like_def sh)
  have "\<exists>T2 T' T0' e.
    update_pass aff ?sem (ones_like ?M) = Inr T2 \<and>
    loop_body aff ?sem (ones_like ?M) (ones_like ?M) 0 = Inr (T', T0', e) \<and>
    shape T2 = [1, 1, 1, 2] \<and> zero_outside ?M T2 \<and>
    (\<forall>b c pos. valid_index [1, 1, 1, 2] (b # c # pos) \<longrightarrow>
        elem T' (b # c # pos) =
        (\<Sum>k\<leftarrow>[0..<9]. elem T2 (b # c # neighbour_position [1, 2] k pos) * of_bool (elem aff (b # c # k # pos))) / 9)"
    using loop_body_char[OF sh _ aff(1) so so, of 0]
    by (simp del: valid_index_Cons) blast
  then obtain T2 T' T0' e where lb:
    "update_pass aff ?sem (ones_like ?M) = Inr T2"
    "loop_body aff ?sem (ones_like ?M) (ones_like ?M) 0 = Inr (T', T0', e)"
    "shape T2 = [1, 1, 1, 2]" "zero_outside ?M T2"
    "\<forall>b c pos. valid_index [1, 1, 1, 2] (b # c # pos) \<longrightarrow>
        elem T' (b # c # pos) =
        (\<Sum>k\<leftarrow>[0..<9]. elem T2 (b # c # neighbour_position [1, 2] k pos) * of_bool (elem aff (b # c # k # pos))) / 9"
    by blast
  have lb5: "elem T' [0, 0, 0, 0] =
        (\<Sum>k\<leftarrow>[0..<9]. elem T2 (0 # 0 # neighbour_position [1, 2] k [0, 0]) * of_bool (elem aff [0, 0, k, 0, 0])) / 9"
    using lb(5) by simp
  have z: "elem T2 [0, 0, 0, 1] = 0"
    using lb(4) by (simp add: zero_outside_iff two_pixel_mask_def)
  from update_pass_value_2d[of "ones_like ?M" 1 1 1 2 aff ?sem] lb(1) aff(2)
  have "elem T2 [0, 0, 0, 0] =
      sqrt (class_value (masked_neighbours aff (ones_like ?M)) [1, 3, 5, 7] 1 [0, 0, 0, 0]
            * class_value (masked_neighbours aff (ones_like ?M)) [0, 2, 6, 8] (sqrt 2) [0, 0, 0, 0])
       * of_bool (elem ?sem [0, 0, 0, 0])"
    by (auto simp: ones_like_def map_tensor_def two_pixel_mask_def)
  moreover have "class_value (masked_neighbours aff (ones_like ?M)) [1, 3, 5, 7] 1 [0, 0, 0, 0] = 1"
    using affv
    by (simp add: class_value_def pair_min_at_def masked_neighbours_def ones_like_def upt_0_2 aff(2))
  moreover have "class_value (masked_neighbours aff (ones_like ?M)) [0, 2, 6, 8] (sqrt 2) [0, 0, 0, 0] = 1"
    using affv
    by (simp add: class_value_def pair_min_at_def masked_neighbours_def ones_like_def upt_0_2 aff(2))
  ultimately have o: "elem T2 [0, 0, 0, 0] = 1"
    by (simp add: map_tensor_def two_pixel_mask_def)
  have "elem T' [0, 0, 0, 0] = 2 / 3"
    using affv np_table by (simp add: lb5 upt_0_9 o z)
  moreover have "valid_direction_mean aff T2 [0, 0, 0, 0] = 1"
    using affv np_table by (simp add: valid_direction_mean_def lb(3) upt_0_9 o z)
  ultimately show ?thesis
    using aff(1) lb(1,2) by blast
qed

lemma mean_all_const:
  assumes "0 < prod_list s"
  shows "mean_all \<lparr>shape = s, elem = (\<lambda>idx. c)\<rparr> = Val c"
proof -
  have "sum_list (map (\<lambda>idx. c) (indices s)) = real (prod_list s) * c"
    by (simp add: sum_list_triv length_indices)
  then show ?thesis
    using assms by (simp add: mean_all_def numel_def elems_def)
qed

lemma mean_all_const_on_valid:
  assumes "shape a = s" "0 < prod_list s" "\<And>idx. valid_index s idx \<Longrightarrow> elem a idx = c"
  shows "mean_all a = Val c"
proof -
  have "mean_all a = mean_all \<lparr>shape = s, elem = (\<lambda>idx. c)\<rparr>"
    by (rule mean_all_cong) (use assms in auto)
  then show ?thesis by (simp add: mean_all_const[OF assms(2)])
qed

lemma rank_cases:
  assumes "ndim (a :: 'a tensor) = 4 \<or> ndim a = 5"
  obtains B C sizes where "shape a = B # C # sizes" "length sizes = 2 \<or> length sizes = 3"
proof -
  from assms have "2 \<le> length (shape a)" by (auto simp: ndim_def)
  then obtain B C sizes where s: "shape a = B # C # sizes"
    by (cases "shape a"; cases "tl (shape a)") auto
  with assms have "length sizes = 2 \<or> length sizes = 3" by (auto simp: ndim_def)
  with s that show ?thesis by blast
qed

lemma zero_mask_two_passes:
  assumes r: "ndim imask = 4 \<or> ndim imask = 5"
    and z: "\<forall>idx\<in>set (indices (shape imask)). elem imask idx = 0"
    and n: "0 < numel imask"
    and e: "0 \<le> eps" "eps < 1" and k: "2 \<le> min_steps"
  shows "\<exists>T T0. solve_eikonal_run imask eps min_steps = Inr (T, T0, 2, Val 0)"
proof -
  from r obtain B C sizes where m: "shape imask = B # C # sizes" "length sizes = 2 \<or> length sizes = 3"
    by (rule rank_cases)
  let ?s = "B # C # sizes"
  let ?sem = "map_tensor (\<lambda>x. x > 0) imask"
  let ?one = "ones_like imask"
  obtain aff where a: "affinity_mask_of imask = Inr aff"
    using affinity_mask_of_ok[OF m] by blast
  have p: "0 < prod_list ?s" using n by (simp add: numel_def m(1))
  have z': "elem imask idx = 0" if "valid_index ?s idx" for idx
    using z that unfolding m(1) set_indices by blast
  have zo: "elem X idx = 0" if "zero_outside imask X" "valid_index ?s idx" for X idx
    using that z'[OF that(2)] unfolding zero_outside_iff m(1) by simp
  have so: "shape ?one = ?s" by (simp add: ones_like_def m(1))
  from loop_body_char[OF m a so so, of 0]
  obtain T2 T1 T01 where p1:
    "loop_body aff ?sem ?one ?one 0 =
        Inr (T1, T01, mean_all \<lparr>shape = ?s, elem = (\<lambda>idx. (elem T2 idx - elem ?one idx)\<^sup>2)\<rparr>)"
    "shape T1 = ?s" "shape T01 = ?s" "zero_outside imask T2" "zero_outside imask T1"
    "\<forall>idx. valid_index ?s idx \<longrightarrow> elem T01 idx = elem T1 idx"
    by blast
  have e1: "mean_all \<lparr>shape = ?s, elem = (\<lambda>idx. (elem T2 idx - elem ?one idx)\<^sup>2)\<rparr> = Val 1"
    by (rule mean_all_const_on_valid[OF _ p]) (use zo[OF p1(4)] in \<open>auto simp: ones_like_def simp del: valid_index_Cons\<close>)
  from loop_body_char[OF m a p1(2,3), of 1]
  obtain T2' T1' T01' where p2:
    "loop_body aff ?sem T1 T01 1 =
        Inr (T1', T01', mean_all \<lparr>shape = ?s, elem = (\<lambda>idx. (elem T2' idx - elem T01 idx)\<^sup>2)\<rparr>)"
    "zero_outside imask T2'"
    by blast
  have e2: "mean_all \<lparr>shape = ?s, elem = (\<lambda>idx. (elem T2' idx - elem T01 idx)\<^sup>2)\<rparr> = Val 0"
    by (rule mean_all_const_on_valid[OF _ p])
       (use zo[OF p2(2)] zo[OF p1(5)] p1(6) in \<open>auto simp del: valid_index_Cons\<close>)
  have "eikonal_loop aff ?sem eps min_steps T1' T01' 2 (Val 0) = Inr (T1', T01', 2, Val 0)"
    using e(1) by (subst eikonal_loop.simps) (simp add: float_gt_def)
  then have "eikonal_loop aff ?sem eps min_steps T1 T01 1 (Val 1) = Inr (T1', T01', 2, Val 0)"
    using e(2) k p2(1) by (subst eikonal_loop.simps) (simp add: float_gt_def e2)
  then have "eikonal_loop aff ?sem eps min_steps ?one ?one 0 PosInf = Inr (T1', T01', 2, Val 0)"
    using k p1(1) by (subst eikonal_loop.simps) (simp add: float_gt_def e1)
  then show ?thesis
    by (auto simp: solve_eikonal_run_def a Let_def)
qed

lemma solve_eikonal_no_pass:
  assumes "ndim imask = 4 \<or> ndim imask = 5" "min_steps \<le> 0"
  shows "solve_eikonal imask eps min_steps = Inr (ones_like imask)"
proof -
  from assms(1) obtain B C sizes where s: "shape imask = B # C # sizes"
    and l: "length sizes = 2 \<or> length sizes = 3"
    by (rule rank_cases)
  obtain aff where a: "affinity_mask_of imask = Inr aff"
    using affinity_mask_of_ok[OF s l] by blast
  show ?thesis
    using assms(2)
    by (simp add: solve_eikonal_def solve_eikonal_run_def a Let_def eikonal_loop.simps)
qed

text \<open>
  C6. Every pass of the loop, the first one with its smoothing included, started in any
  state whose fields have the shape of the instance mask, returns a field that is zero at
  every pixel outside the semantic mask, and keeps the shapes; the fields the driver starts
  from have that shape. So the field is zero outside the mask after every pass, and so is
  the field that \<open>solve_eikonal\<close> returns after at least one pass.
\<close>

theorem field_zero_outside_mask_after_every_pass:
  assumes "ndim instance_mask = 4 \<or> ndim instance_mask = 5"
  shows "\<exists>affinity_mask.
           affinity_mask_of instance_mask = Inr affinity_mask \<and>
           (\<forall>T T0 t. shape T = shape instance_mask \<and> shape T0 = shape instance_mask \<longrightarrow>
              (\<exists>T' T0' error.
                 loop_body affinity_mask (map_tensor (\<lambda>x. x > 0) instance_mask) T T0 t
                   = Inr (T', T0', error) \<and>
                 shape T' = shape instance_mask \<and> shape T0' = shape instance_mask \<and>
                 zero_outside instance_mask T')) \<and>
           (\<forall>eps min_steps. \<exists>T T0 t error.
              solve_eikonal_run instance_mask eps min_steps = Inr (T, T0, t, error) \<and>
              shape T = shape instance_mask \<and>
              (t = 0 \<and> T = ones_like instance_mask \<or> 0 < t \<and> zero_outside instance_mask T))"
proof -
  from assms obtain B C sizes where m: "shape instance_mask = B # C # sizes"
    "length sizes = 2 \<or> length sizes = 3"
    by (rule rank_cases)
  obtain aff where a: "affinity_mask_of instance_mask = Inr aff"
    using affinity_mask_of_ok[OF m] by blast
  have "\<exists>T' T0' error.
          loop_body aff (map_tensor (\<lambda>x. x > 0) instance_mask) T T0 t = Inr (T', T0', error) \<and>
          shape T' = shape instance_mask \<and> shape T0' = shape instance_mask \<and>
          zero_outside instance_mask T'"
    if "shape T = shape instance_mask" "shape T0 = shape instance_mask" for T T0 t
    using loop_body_ok[OF m a, of T T0 t] that by (simp add: m(1))
  moreover have "\<exists>T T0 t error.
      solve_eikonal_run instance_mask eps min_steps = Inr (T, T0, t, error) \<and>
      shape T = shape instance_mask \<and>
      (t = 0 \<and> T = ones_like instance_mask \<or> 0 < t \<and> zero_outside instance_mask T)"
    for eps min_steps
    using solve_eikonal_run_ok[OF m, of eps min_steps] by blast
  ultimately show ?thesis
    using a by blast
qed

theorem field_zero_outside_mask_after_every_pass_witness:
  "ndim two_pixel_mask = 4 \<and>
   (\<exists>affinity_mask T' T0' error.
      affinity_mask_of two_pixel_mask = Inr affinity_mask \<and>
      loop_body affinity_mask (map_tensor (\<lambda>x. x > 0) two_pixel_mask)
        (ones_like two_pixel_mask) (ones_like two_pixel_mask) 0 = Inr (T', T0', error) \<and>
      elem T' [0, 0, 0, 1] = 0)"
proof -
  have n: "ndim two_pixel_mask = 4"
    by (simp add: ndim_def two_pixel_mask_def)
  from field_zero_outside_mask_after_every_pass[of two_pixel_mask] n
  obtain aff where a: "affinity_mask_of two_pixel_mask = Inr aff"
    "\<forall>T T0 t. shape T = shape two_pixel_mask \<and> shape T0 = shape two_pixel_mask \<longrightarrow>
              (\<exists>T' T0' error.
                 loop_body aff (map_tensor (\<lambda>x. x > 0) two_pixel_mask) T T0 t
                   = Inr (T', T0', error) \<and>
                 shape T' = shape two_pixel_mask \<and> shape T0' = shape two_pixel_mask \<and>
                 zero_outside two_pixel_mask T')"
    by blast
  have "shape (ones_like two_pixel_mask) = shape two_pixel_mask"
    by (simp add: ones_like_def)
  with a(2) obtain T' T0' error where b:
    "loop_body aff (map_tensor (\<lambda>x. x > 0) two_pixel_mask)
        (ones_like two_pixel_mask) (ones_like two_pixel_mask) 0 = Inr (T', T0', error)"
    "zero_outside two_pixel_mask T'"
    by blast
  have "elem T' [0, 0, 0, 1] = 0"
    using b(2) by (simp add: zero_outside_iff two_pixel_mask_def)
  with n a(1) b(1) show ?thesis by blast
qed

text \<open>
  C4, as amended. For an all-zero instance mask of spatial rank 2 or 3, every \<open>eps\<close> and
  every \<open>min_steps\<close> of at least 1, \<open>solve_eikonal\<close> returns a field of the shape of the
  mask that is zero at every pixel.
\<close>

theorem zero_mask_gives_zero_field:
  assumes "ndim instance_mask = 4 \<or> ndim instance_mask = 5"
    and "\<forall>idx\<in>set (indices (shape instance_mask)). elem instance_mask idx = 0"
    and "1 \<le> min_steps"
  shows "\<exists>T. solve_eikonal instance_mask eps min_steps = Inr T \<and> shape T = shape instance_mask \<and>
           (\<forall>idx\<in>set (indices (shape T)). elem T idx = 0)"
proof -
  from assms(1) obtain B C sizes where m: "shape instance_mask = B # C # sizes"
    "length sizes = 2 \<or> length sizes = 3"
    by (rule rank_cases)
  from solve_eikonal_run_ok[OF m, of eps min_steps]
  obtain T T0 t e where r: "solve_eikonal_run instance_mask eps min_steps = Inr (T, T0, t, e)"
    "shape T = shape instance_mask" "\<not> (float_gt e eps \<and> t < min_steps)"
    "(t = 0 \<and> T = ones_like instance_mask \<and> e = PosInf) \<or> (0 < t \<and> zero_outside instance_mask T)"
    by blast
  have "\<not> (t = 0 \<and> e = PosInf)"
    using r(3) assms(3) by (auto simp: float_gt_def)
  with r(4) have z: "zero_outside instance_mask T" by blast
  have "\<forall>idx\<in>set (indices (shape T)). elem T idx = 0"
    using z assms(2) unfolding zero_outside_def r(2) by simp
  then show ?thesis
    using r(1,2) by (simp add: solve_eikonal_def)
qed

theorem zero_mask_gives_zero_field_witness:
  "\<exists>T. solve_eikonal \<lparr>shape = [1, 1, 1, 1], elem = (\<lambda>idx. 0)\<rparr> (1 / 1000) 51 = Inr T \<and>
       shape T = [1, 1, 1, 1] \<and> elem T [0, 0, 0, 0] = 0"
  using zero_mask_gives_zero_field [of "\<lparr>shape = [1, 1, 1, 1], elem = (\<lambda>idx. 0)\<rparr>" 51 "1 / 1000"]
  by (auto simp: ndim_def)

text \<open>
  C4 as stated fails for \<open>min_steps = 0\<close>: the loop makes no pass, and the all-ones field
  that line 138 creates is returned.
\<close>

theorem zero_mask_without_pass_counterexample:
  "solve_eikonal \<lparr>shape = [1, 1, 1, 1], elem = (\<lambda>idx. 0)\<rparr> (1 / 1000) 0
     = Inr (ones_like \<lparr>shape = [1, 1, 1, 1], elem = (\<lambda>idx. 0 :: real)\<rparr>) \<and>
   elem (ones_like \<lparr>shape = [1, 1, 1, 1], elem = (\<lambda>idx. 0 :: real)\<rparr>) [0, 0, 0, 0] = 1"
  by (simp add: solve_eikonal_no_pass ndim_def) (simp add: ones_like_def)

text \<open>
  C1. The loop of line 143 runs while the error exceeds \<open>eps\<close> and \<open>t < min_steps\<close>, so
  it stops as soon as the error is at most \<open>eps\<close>, whatever \<open>t\<close> is. On a non-empty all-zero
  mask of spatial rank 2 or 3, with \<open>0 \<le> eps < 1\<close> and \<open>min_steps\<close> of at least 2, the driver
  returns after two passes with the error 0: the tolerance alone ends the loop, before
  \<open>min_steps\<close> passes are made.
\<close>

theorem tolerance_alone_ends_the_loop:
  assumes "ndim instance_mask = 4 \<or> ndim instance_mask = 5"
    and "\<forall>idx\<in>set (indices (shape instance_mask)). elem instance_mask idx = 0"
    and "0 < numel instance_mask"
    and "0 \<le> eps" and "eps < 1" and "2 \<le> min_steps"
  shows "\<exists>T T0. solve_eikonal_run instance_mask eps min_steps = Inr (T, T0, 2, Val 0)"
  using assms by (rule zero_mask_two_passes)

theorem tolerance_alone_ends_the_loop_witness:
  "\<exists>T T0. solve_eikonal_run \<lparr>shape = [1, 1, 1, 1], elem = (\<lambda>idx. 0)\<rparr> (1 / 1000) 51
             = Inr (T, T0, 2, Val 0)"
  using tolerance_alone_ends_the_loop [of "\<lparr>shape = [1, 1, 1, 1], elem = (\<lambda>idx. 0)\<rparr>" "1 / 1000" 51]
  by (simp add: ndim_def numel_def)

text \<open>
  C2, as amended. In a pass with \<open>t < 1\<close>, which in \<open>solve_eikonal\<close> is the pass of
  index 0 only, the field \<open>T2\<close> that the update of lines 145--149 gives is replaced by
  the sum of its affinity-valid neighbour values divided by the number \<open>3 ^ d\<close> of all
  directions, the centre included (the mean along the neighbour axis of the masked stack,
  in which a masked-out direction counts as 0). In every later pass the result of the
  update is kept as it is.
\<close>

theorem first_pass_smoothing:
  assumes "shape instance_mask = B # C # sizes" and "length sizes = 2 \<or> length sizes = 3"
  shows "\<exists>affinity_mask.
           affinity_mask_of instance_mask = Inr affinity_mask \<and>
           (\<forall>T T0 t. shape T = B # C # sizes \<and> shape T0 = B # C # sizes \<longrightarrow>
              (\<exists>T2 T' T0' error.
                 update_pass affinity_mask (map_tensor (\<lambda>x. x > 0) instance_mask) T = Inr T2 \<and>
                 loop_body affinity_mask (map_tensor (\<lambda>x. x > 0) instance_mask) T T0 t
                   = Inr (T', T0', error) \<and>
                 shape T' = B # C # sizes \<and>
                 (if t < 1
                  then \<forall>b c pos. valid_index (B # C # sizes) (b # c # pos) \<longrightarrow>
                         elem T' (b # c # pos) =
                           (\<Sum>k\<leftarrow>[0..<3 ^ length sizes].
                               if elem affinity_mask (b # c # k # pos)
                               then elem T2 (b # c # neighbour_position sizes k pos) else 0)
                           / real (3 ^ length sizes)
                  else T' = T2)))"
proof -
  obtain aff where a: "affinity_mask_of instance_mask = Inr aff"
    using affinity_mask_of_ok[OF assms] by blast
  have r: "x * of_bool P = (if P then x else 0)" for x :: real and P
    by simp
  have "\<exists>T2 T' T0' error.
          update_pass aff (map_tensor (\<lambda>x. x > 0) instance_mask) T = Inr T2 \<and>
          loop_body aff (map_tensor (\<lambda>x. x > 0) instance_mask) T T0 t = Inr (T', T0', error) \<and>
          shape T' = B # C # sizes \<and>
          (if t < 1
           then \<forall>b c pos. valid_index (B # C # sizes) (b # c # pos) \<longrightarrow>
                  elem T' (b # c # pos) =
                    (\<Sum>k\<leftarrow>[0..<3 ^ length sizes].
                        if elem aff (b # c # k # pos)
                        then elem T2 (b # c # neighbour_position sizes k pos) else 0)
                    / real (3 ^ length sizes)
           else T' = T2)"
    if "shape T = B # C # sizes" "shape T0 = B # C # sizes" for T T0 t
    using loop_body_char[OF assms a that, of t] unfolding r by blast
  with a show ?thesis by blast
qed

theorem first_pass_smoothing_witness:
  "shape two_pixel_mask = [1, 1, 1, 2] \<and>
   (\<exists>affinity_mask T2 T' T0' error.
      affinity_mask_of two_pixel_mask = Inr affinity_mask \<and>
      update_pass affinity_mask (map_tensor (\<lambda>x. x > 0) two_pixel_mask) (ones_like two_pixel_mask)
        = Inr T2 \<and>
      loop_body affinity_mask (map_tensor (\<lambda>x. x > 0) two_pixel_mask)
        (ones_like two_pixel_mask) (ones_like two_pixel_mask) 0 = Inr (T', T0', error) \<and>
      elem T' [0, 0, 0, 0] =
        (\<Sum>k\<leftarrow>[0..<9]. if elem affinity_mask [0, 0, k, 0, 0]
                       then elem T2 (0 # 0 # neighbour_position [1, 2] k [0, 0]) else 0) / 9)"
proof -
  have s: "shape two_pixel_mask = 1 # 1 # [1, 2]"
    by (simp add: two_pixel_mask_def)
  from first_pass_smoothing[OF s]
  obtain aff where a: "affinity_mask_of two_pixel_mask = Inr aff"
    "\<forall>T T0 t. shape T = 1 # 1 # [1, 2] \<and> shape T0 = 1 # 1 # [1, 2] \<longrightarrow>
              (\<exists>T2 T' T0' error.
                 update_pass aff (map_tensor (\<lambda>x. x > 0) two_pixel_mask) T = Inr T2 \<and>
                 loop_body aff (map_tensor (\<lambda>x. x > 0) two_pixel_mask) T T0 t
                   = Inr (T', T0', error) \<and>
                 shape T' = 1 # 1 # [1, 2] \<and>
                 (if t < 1
                  then \<forall>b c pos. valid_index (1 # 1 # [1, 2]) (b # c # pos) \<longrightarrow>
                         elem T' (b # c # pos) =
                           (\<Sum>k\<leftarrow>[0..<3 ^ length [1 :: nat, 2]].
                               if elem aff (b # c # k # pos)
                               then elem T2 (b # c # neighbour_position [1, 2] k pos) else 0)
                           / real (3 ^ length [1 :: nat, 2])
                  else T' = T2))"
    by auto
  have so: "shape (ones_like two_pixel_mask) = 1 # 1 # [1, 2]"
    by (simp add: ones_like_def s)
  from a(2) so obtain T2 T' T0' error where b:
    "update_pass aff (map_tensor (\<lambda>x. x > 0) two_pixel_mask) (ones_like two_pixel_mask) = Inr T2"
    "loop_body aff (map_tensor (\<lambda>x. x > 0) two_pixel_mask)
        (ones_like two_pixel_mask) (ones_like two_pixel_mask) 0 = Inr (T', T0', error)"
    "if (0 :: int) < 1
     then \<forall>b c pos. valid_index (1 # 1 # [1, 2]) (b # c # pos) \<longrightarrow>
                         elem T' (b # c # pos) =
                           (\<Sum>k\<leftarrow>[0..<3 ^ length [1 :: nat, 2]].
                               if elem aff (b # c # k # pos)
                               then elem T2 (b # c # neighbour_position [1, 2] k pos) else 0)
                           / real (3 ^ length [1 :: nat, 2])
     else T' = T2"
    by blast
  have "elem T' [0, 0, 0, 0] =
        (\<Sum>k\<leftarrow>[0..<9]. if elem aff [0, 0, k, 0, 0]
                       then elem T2 (0 # 0 # neighbour_position [1, 2] k [0, 0]) else 0) / 9"
    using b(3) by simp
  with a(1) b(1,2) s show ?thesis by auto
qed

section \<open>The fields of the solver are non-negative\<close>

text \<open>
  In every pass from a non-negative field the accumulator \<open>phi\<close> that line 91 hands to
  \<open>torch.pow\<close> is non-negative at every pixel, and the field the pass returns is
  non-negative again; the driver starts from the all-ones field. So the square root is
  never taken of a negative number. The sampler reads inside the grid, in the order of
  the table of the gradient.
\<close>

lemma table_2d_rows: "length (vector_direction_rows 2) = 9 \<and> (\<forall>r\<in>set (vector_direction_rows 2). length r = 2)"
  by (simp add: vector_direction_rows_def)

lemma table_3d_rows: "length (vector_direction_rows 3) = 27 \<and> (\<forall>r\<in>set (vector_direction_rows 3). length r = 3)"
  by (simp add: vector_direction_rows_def)

lemma neighbour_offsets_row:
  assumes "k < 3 ^ d" "d = 2 \<or> d = 3"
  shows "length (vector_direction_rows d ! k) = d"
  using assms table_2d_rows table_3d_rows by auto

lemma clamp_coord_less: "p < n \<Longrightarrow> clamp_coord p off n < n"
  by (auto simp: clamp_coord_def)

lemma neighbour_position_valid:
  assumes "valid_index sizes pos" "k < 3 ^ length sizes" "length sizes = 2 \<or> length sizes = 3"
  shows "valid_index sizes (neighbour_position sizes k pos)"
proof -
  let ?off = "rev (vector_direction_rows (length sizes) ! k)"
  have l: "length pos = length sizes" "length ?off = length sizes"
    using assms valid_index_length neighbour_offsets_row by auto
  have p: "\<forall>i<length sizes. pos ! i < sizes ! i"
    using assms(1) by (auto simp: valid_index_def list_all2_conv_all_nth)
  show ?thesis
    unfolding valid_index_def neighbour_position_def list_all2_conv_all_nth
    using l p by (auto simp: clamp_coord_less)
qed

lemma class_value_nonneg:
  assumes "\<And>i. i < length ind div 2 \<Longrightarrow> 0 \<le> pair_min_at cc ind idx i" "2 < length idx"
  shows "0 \<le> class_value cc ind f idx"
proof -
  have "0 \<le> sum_list (map (pair_min_at cc ind idx) [0..<length ind div 2])"
    by (rule sum_list_nonneg) (use assms(1) in auto)
  moreover have "0 < real (length idx) - 2" using assms(2) by simp
  ultimately show ?thesis
    by (simp add: class_value_def Let_def)
qed

lemma class_update_nonneg:
  assumes "shape cc = B # C # K # sizes" "\<forall>i\<in>set ind. i < K" "2 \<le> length ind"
    and "length sizes \<noteq> 0" "shape phi = B # C # sizes" "0 < f"
    and cc: "\<And>idx. valid_index (B # C # K # sizes) idx \<Longrightarrow> 0 \<le> elem cc idx"
    and phi: "\<And>idx. valid_index (B # C # sizes) idx \<Longrightarrow> 0 \<le> elem phi idx"
  shows "\<exists>phi'. class_update cc phi ind f = Inr phi' \<and> shape phi' = B # C # sizes \<and>
           (\<forall>idx. valid_index (B # C # sizes) idx \<longrightarrow> 0 \<le> elem phi' idx)"
proof -
  from class_update_value[OF assms(1-6)]
  obtain phi' where p: "class_update cc phi ind f = Inr phi'" "shape phi' = B # C # sizes"
    "\<forall>idx. valid_index (B # C # sizes) idx \<longrightarrow> elem phi' idx = elem phi idx * class_value cc ind f idx"
    by blast
  have "0 \<le> elem phi' idx" if v: "valid_index (B # C # sizes) idx" for idx
  proof -
    from v obtain b c pos where idx: "idx = b # c # pos" "b < B" "c < C" "valid_index sizes pos"
      by auto
    have "0 \<le> pair_min_at cc ind idx i" if "i < length ind div 2" for i
    proof -
      have "ind ! i < K" "ind ! (length ind - (i + 1)) < K"
        using that assms(2,3) by auto
      then have "valid_index (B # C # K # sizes) (b # c # ind ! i # pos)"
          "valid_index (B # C # K # sizes) (b # c # ind ! (length ind - (i + 1)) # pos)"
        using idx by auto
      from cc[OF this(1)] cc[OF this(2)] show ?thesis
        by (simp add: pair_min_at_def idx)
    qed
    moreover have "2 < length idx"
      using valid_index_length[OF v] assms(4) by simp
    ultimately have "0 \<le> class_value cc ind f idx"
      by (rule class_value_nonneg)
    with phi[OF v] p(3) v show ?thesis by simp
  qed
  with p(1,2) show ?thesis by blast
qed

lemma class_loop_nonneg:
  assumes "shape cc = B # C # K # sizes" "length sizes \<noteq> 0"
    and cc: "\<And>idx. valid_index (B # C # K # sizes) idx \<Longrightarrow> 0 \<le> elem cc idx"
    and "\<forall>(ind, f)\<in>set cls. (\<forall>i\<in>set ind. i < K) \<and> 2 \<le> length ind \<and> 0 < f"
    and "shape phi = B # C # sizes"
    and "\<forall>idx. valid_index (B # C # sizes) idx \<longrightarrow> 0 \<le> elem phi idx"
  shows "\<exists>phi'. class_loop cc phi cls = Inr phi' \<and> shape phi' = B # C # sizes \<and>
           (\<forall>idx. valid_index (B # C # sizes) idx \<longrightarrow> 0 \<le> elem phi' idx)"
  using assms(4-6)
proof (induction cls arbitrary: phi)
  case Nil
  then show ?case by simp
next
  case (Cons cl cls)
  obtain ind f where cl: "cl = (ind, f)" by (cases cl)
  from Cons.prems(1) cl have c: "\<forall>i\<in>set ind. i < K" "2 \<le> length ind" "0 < f" by auto
  from class_update_nonneg[OF assms(1) c(1,2) assms(2) Cons.prems(2) c(3) cc] Cons.prems(3)
  obtain phi1 where p: "class_update cc phi ind f = Inr phi1" "shape phi1 = B # C # sizes"
    "\<forall>idx. valid_index (B # C # sizes) idx \<longrightarrow> 0 \<le> elem phi1 idx"
    by blast
  from Cons.IH[OF _ p(2,3)] Cons.prems(1) show ?case by (simp add: cl p(1))
qed

lemma sqrt2_pos: "0 < sqrt 2" and sqrt3_pos: "0 < sqrt 3"
  by simp_all

lemma single_step_accumulator_nonneg:
  assumes "shape cc = B # C # 3 ^ length sizes # sizes" "length sizes = 2 \<or> length sizes = 3"
    and cc: "\<And>idx. valid_index (B # C # 3 ^ length sizes # sizes) idx \<Longrightarrow> 0 \<le> elem cc idx"
  shows "\<exists>c0 phi. select_dim cc 2 0 = Inr c0 \<and>
           class_loop cc (ones_like c0)
             (zip (tl (if ndim cc = 5 then index_list_2d else index_list_3d))
                  (tl (if ndim cc = 5 then factors_2d else factors_3d))) = Inr phi \<and>
           eikonal_single_step cc = Inr (map_tensor sqrt phi) \<and> shape phi = B # C # sizes \<and>
           (\<forall>idx. valid_index (B # C # sizes) idx \<longrightarrow> 0 \<le> elem phi idx)"
proof -
  let ?c0 = "\<lparr>shape = B # C # sizes, elem = (\<lambda>idx. elem cc (take 2 idx @ 0 # drop 2 idx))\<rparr>"
  let ?cls = "zip (tl (if ndim cc = 5 then index_list_2d else index_list_3d))
                  (tl (if ndim cc = 5 then factors_2d else factors_3d))"
  have c0: "select_dim cc 2 0 = Inr ?c0"
    using assms(1) by (auto simp: select_dim_def ndim_def)
  have nz: "length sizes \<noteq> 0" using assms(2) by auto
  have n: "ndim cc = 5 \<or> ndim cc = 6" "ndim cc = 5 \<longleftrightarrow> length sizes = 2"
    using assms(1,2) by (auto simp: ndim_def)
  have cls: "\<forall>(ind, f)\<in>set ?cls. (\<forall>i\<in>set ind. i < 3 ^ length sizes) \<and> 2 \<le> length ind \<and> 0 < f"
    using assms(2) n(2)
    by (auto simp: index_list_2d_def factors_2d_def index_list_3d_def factors_3d_def)
  have one: "shape (ones_like ?c0) = B # C # sizes"
    "\<forall>idx. valid_index (B # C # sizes) idx \<longrightarrow> 0 \<le> elem (ones_like ?c0) idx"
    by (simp_all add: ones_like_def)
  from class_loop_nonneg[OF assms(1) nz cc cls one]
  obtain phi where phi: "class_loop cc (ones_like ?c0) ?cls = Inr phi" "shape phi = B # C # sizes"
    "\<forall>idx. valid_index (B # C # sizes) idx \<longrightarrow> 0 \<le> elem phi idx"
    by blast
  have "eikonal_single_step cc = Inr (map_tensor sqrt phi)"
    using n(1) phi(1) by (simp add: eikonal_single_step_def Let_def c0)
  with c0 phi show ?thesis by blast
qed

lemma pass_keeps_fields_nonneg:
  assumes m: "shape imask = B # C # sizes" "length sizes = 2 \<or> length sizes = 3"
    and a: "affinity_mask_of imask = Inr aff"
    and T: "shape T = B # C # sizes" "shape T0 = B # C # sizes"
    and nn: "\<forall>idx. valid_index (B # C # sizes) idx \<longrightarrow> 0 \<le> elem T idx"
  shows "\<exists>cc c0 phi T' T0' e.
           bindE (binary_convolution T) (\<lambda>nb. binop (\<lambda>x k. x * of_bool k) nb aff) = Inr cc \<and>
           select_dim cc 2 0 = Inr c0 \<and>
           class_loop cc (ones_like c0)
             (zip (tl (if ndim cc = 5 then index_list_2d else index_list_3d))
                  (tl (if ndim cc = 5 then factors_2d else factors_3d))) = Inr phi \<and>
           eikonal_single_step cc = Inr (map_tensor sqrt phi) \<and>
           (\<forall>idx. valid_index (B # C # sizes) idx \<longrightarrow> 0 \<le> elem phi idx) \<and>
           loop_body aff (map_tensor (\<lambda>x. x > 0) imask) T T0 t = Inr (T', T0', e) \<and>
           shape T' = B # C # sizes \<and>
           (\<forall>idx. valid_index (B # C # sizes) idx \<longrightarrow> 0 \<le> elem T' idx)"
proof -
  let ?s = "B # C # sizes"
  let ?K = "3 ^ length sizes :: nat"
  let ?sem = "map_tensor (\<lambda>x. x > 0) imask"
  from affinity_mask_of_ok[OF m] a
  have aff: "shape aff = B # C # ?K # sizes" by auto
  let ?cc = "\<lparr>shape = B # C # ?K # sizes,
      elem = (\<lambda>idx. (case broadcast_index (B # C # ?K # sizes) idx of
                           b # c # k # pos \<Rightarrow> elem T (b # c # neighbour_position sizes k pos)
                         | _ \<Rightarrow> elem T (broadcast_index (B # C # ?K # sizes) idx))
                  * of_bool (elem aff (broadcast_index (B # C # ?K # sizes) idx)))\<rparr>"
  have cc: "bindE (binary_convolution T) (\<lambda>nb. binop (\<lambda>x k. x * of_bool k) nb aff) = Inr ?cc"
    using aff by (simp add: binary_convolution_ok[OF T(1) m(2)] binop_def)
  have ccn: "0 \<le> elem ?cc idx" if v: "valid_index (B # C # ?K # sizes) idx" for idx
  proof -
    from v obtain b c k pos where idx: "idx = b # c # k # pos" "b < B" "c < C" "k < ?K"
      "valid_index sizes pos" by auto
    have "valid_index ?s (b # c # neighbour_position sizes k pos)"
      using idx neighbour_position_valid[OF idx(5,4) m(2)] by simp
    with nn have "0 \<le> elem T (b # c # neighbour_position sizes k pos)" by blast
    then show ?thesis
      using v unfolding idx by (simp del: valid_index_Cons)
  qed
  from single_step_accumulator_nonneg[of ?cc B C sizes, OF _ m(2) ccn]
  obtain c0 phi where s: "select_dim ?cc 2 0 = Inr c0"
    "class_loop ?cc (ones_like c0)
             (zip (tl (if ndim ?cc = 5 then index_list_2d else index_list_3d))
                  (tl (if ndim ?cc = 5 then factors_2d else factors_3d))) = Inr phi"
    "eikonal_single_step ?cc = Inr (map_tensor sqrt phi)" "shape phi = ?s"
    "\<forall>idx. valid_index ?s idx \<longrightarrow> 0 \<le> elem phi idx"
    by auto
  from loop_body_char[OF m a T, of t]
  obtain T2 T' T0' e where lb:
    "update_pass aff ?sem T = Inr T2" "loop_body aff ?sem T T0 t = Inr (T', T0', e)"
    "shape T2 = ?s" "shape T' = ?s"
    "if t < 1
     then \<forall>b c pos. valid_index ?s (b # c # pos) \<longrightarrow>
            elem T' (b # c # pos) =
              (\<Sum>k\<leftarrow>[0..<?K]. elem T2 (b # c # neighbour_position sizes k pos)
                                  * of_bool (elem aff (b # c # k # pos))) / real ?K
     else T' = T2"
    by blast
  have "update_pass aff ?sem T = binop_inplace (\<lambda>x k. x * of_bool k) (map_tensor sqrt phi) ?sem"
    using cc s(3) by (auto simp: update_pass_def bindE_def split: sum.splits)
  with lb(1) have T2: "binop_inplace (\<lambda>x k. x * of_bool k) (map_tensor sqrt phi) ?sem = Inr T2"
    by simp
  have T2n: "0 \<le> elem T2 idx" if v: "valid_index ?s idx" for idx
    using T2 s(4,5) v m(1)
    by (auto simp: binop_inplace_def binop_def map_tensor_def simp del: valid_index_Cons)
  have T'n: "0 \<le> elem T' idx" if v: "valid_index ?s idx" for idx
  proof (cases "t < 1")
    case False
    then show ?thesis using lb(5) T2n[OF v] by simp
  next
    case True
    from v obtain b c pos where idx: "idx = b # c # pos" "b < B" "c < C" "valid_index sizes pos"
      by auto
    have "0 \<le> (\<Sum>k\<leftarrow>[0..<?K]. elem T2 (b # c # neighbour_position sizes k pos)
                                  * of_bool (elem aff (b # c # k # pos)))"
    proof (rule sum_list_nonneg)
      fix x assume "x \<in> set (map (\<lambda>k. elem T2 (b # c # neighbour_position sizes k pos)
                                  * of_bool (elem aff (b # c # k # pos))) [0..<?K])"
      then obtain k where k: "k < ?K"
        "x = elem T2 (b # c # neighbour_position sizes k pos) * of_bool (elem aff (b # c # k # pos))"
        by auto
      have "valid_index ?s (b # c # neighbour_position sizes k pos)"
        using idx neighbour_position_valid[OF idx(4) k(1) m(2)] by simp
      from T2n[OF this] show "0 \<le> x" by (simp add: k(2))
    qed
    then show ?thesis
      using True lb(5) v unfolding idx by simp
  qed
  from cc s lb(2,4) T'n show ?thesis by blast
qed

section \<open>The Gradient Reconstructor\<close>

lemma binop_inplace_cases:
  "binop_inplace g a b = Inl ShapeError \<or>
   (\<exists>c. binop_inplace g a b = Inr c \<and> shape c = shape a)"
  by (auto simp: binop_inplace_def binop_def split: option.splits)

lemma gradient_sum_3d:
  assumes "shape affinities1 = [B, C, 27, X, Y, Z]" "shape vd = [1, 1, 27, 3, 1, 1, 1]"
  shows "gradient_sum affinities1 vm vd = Inl ShapeError"
  using assms
  by (simp add: gradient_sum_def unsqueeze_def ndim_def concat2_def binop_def broadcast_shapes_def)

lemma direction_tables_3d:
  "\<exists>vm vd. direction_tables 3 = Inr (vm, vd) \<and> shape vd = [1, 1, 27, 3, 1, 1, 1]"
  by (simp add: direction_tables_def vector_magnitude_def vector_direction_def sum_dim_def ndim_def
      map_tensor_def view_def numel_def)

text \<open>
  C3. A field of spatial rank 3 has five axes. Line 227 concatenates two copies of the
  differences along the new component axis, whatever the rank, while the table of
  directions has three components, so the product of line 233 cannot be broadcast (and
  for most batch and channel sizes the subtraction of line 225 cannot either):
  \<open>gradient_from_eikonal\<close> raises on every field of spatial rank 3 instead of returning a
  field of shape (B, C, 3, X, Y, Z).
\<close>

theorem gradient_fails_on_every_3d_field:
  assumes "ndim eikonal = 5"
  shows "gradient_from_eikonal eikonal = Inl ShapeError"
proof -
  from assms obtain B C X Y Z where s: "shape eikonal = [B, C, X, Y, Z]"
    by (auto simp: ndim_def length_Suc_conv eval_nat_numeral)
  have bc: "binary_convolution eikonal =
      Inr \<lparr>shape = [B, C, 27, X, Y, Z],
           elem = (\<lambda>idx. case idx of
                           b # c # k # pos \<Rightarrow> elem eikonal (b # c # neighbour_position [X, Y, Z] k pos)
                         | _ \<Rightarrow> elem eikonal idx)\<rparr>" (is "_ = Inr ?nb")
    using binary_convolution_ok[of eikonal B C "[X, Y, Z]"] s by simp
  obtain vm vd where t: "direction_tables 3 = Inr (vm, vd)" "shape vd = [1, 1, 27, 3, 1, 1, 1]"
    using direction_tables_3d by blast
  have g: "gradient_from_eikonal eikonal =
      bindE (binop_inplace (\<lambda>x y. x - y) ?nb eikonal) (\<lambda>affinities1. gradient_sum affinities1 vm vd)"
    using assms by (simp add: gradient_from_eikonal_def Let_def t(1) bc)
  show ?thesis
  proof (cases "binop_inplace (\<lambda>x y. x - y) ?nb eikonal")
    case (Inl e)
    then have "binop_inplace (\<lambda>x y. x - y) ?nb eikonal = Inl ShapeError"
      using binop_inplace_cases[of "\<lambda>x y. x - y" ?nb eikonal] by auto
    then show ?thesis by (simp add: g)
  next
    case (Inr a1)
    then have "shape a1 = [B, C, 27, X, Y, Z]"
      using binop_inplace_cases[of "\<lambda>x y. x - y" ?nb eikonal] by auto
    from gradient_sum_3d[OF this t(2)] Inr show ?thesis by (simp add: g)
  qed
qed

theorem gradient_fails_on_every_3d_field_witness:
  "ndim \<lparr>shape = [1, 1, 2, 2, 2], elem = (\<lambda>idx. 0 :: real)\<rparr> = 5 \<and>
   gradient_from_eikonal \<lparr>shape = [1, 1, 2, 2, 2], elem = (\<lambda>idx. 0)\<rparr> = Inl ShapeError"
  using gradient_fails_on_every_3d_field [of "\<lparr>shape = [1, 1, 2, 2, 2], elem = (\<lambda>idx. 0)\<rparr>"]
  by (simp add: ndim_def)

lemma gradient_2d_single:
  assumes "shape eikonal = [1, 1, X, Y]"
  shows "\<exists>g. gradient_from_eikonal eikonal = Inr g \<and> shape g = [1, 1, 2, X, Y]"
  using assms
  by (simp add: gradient_from_eikonal_def direction_tables_def gradient_sum_def ndim_def Let_def
      vector_magnitude_def vector_direction_def sum_dim_def map_tensor_def view_def numel_def
      binary_convolution_def binop_inplace_def binop_def broadcast_shapes_def unsqueeze_def
      concat2_def flip_def)

lemma gradient_2d_batch_fails:
  "gradient_from_eikonal \<lparr>shape = [2, 1, 2, 2], elem = (\<lambda>idx. 0)\<rparr> = Inl ShapeError"
  by (simp add: gradient_from_eikonal_def direction_tables_def gradient_sum_def ndim_def Let_def
      vector_magnitude_def vector_direction_def sum_dim_def map_tensor_def view_def numel_def
      binary_convolution_def binop_inplace_def binop_def broadcast_shapes_def unsqueeze_def
      concat2_def flip_def)

section \<open>The explicit store\<close>

lemma overwrite_same [simp]: "overwrite a (heap st a) st = st"
  by (simp add: overwrite_def)

lemma overwrite_twice [simp]: "overwrite a v (overwrite a w st) = overwrite a v st"
  by (simp add: overwrite_def)

lemma heap_overwrite [simp]: "heap (overwrite a v st) b = (if b = a then v else heap st b)"
  by (simp add: overwrite_def)

lemma next_free_overwrite [simp]: "next_free (overwrite a v st) = next_free st"
  by (simp add: overwrite_def)

lemma class_loop_st_sim:
  assumes "connected_components \<noteq> phi"
  shows "class_loop_st connected_components phi cls st =
           (case class_loop (heap st connected_components) (heap st phi) cls of
              Inl e \<Rightarrow> Inl e
            | Inr v \<Rightarrow> Inr (overwrite phi v st))"
proof (induction cls arbitrary: st)
  case Nil
  then show ?case by simp
next
  case (Cons cl cls)
  obtain ind f where cl: "cl = (ind, f)" by (cases cl)
  show ?case
  proof (cases "class_update (heap st connected_components) (heap st phi) ind f")
    case (Inl e)
    then show ?thesis by (simp add: cl class_update_st_def)
  next
    case (Inr v)
    then show ?thesis
      using assms by (simp add: cl class_update_st_def Cons.IH split: sum.splits)
  qed
qed

lemma eikonal_single_step_st_sim:
  assumes "connected_components < next_free st"
  shows "case eikonal_single_step (heap st connected_components) of
           Inl e \<Rightarrow> eikonal_single_step_st connected_components st = Inl e
         | Inr T1 \<Rightarrow>
             (\<exists>st'. eikonal_single_step_st connected_components st = Inr (Suc (next_free st), st') \<and>
                    heap st' (Suc (next_free st)) = T1 \<and>
                    next_free st' = Suc (Suc (next_free st)) \<and>
                    (\<forall>a<next_free st. heap st' a = heap st a))"
proof -
  let ?cc = "heap st connected_components"
  show ?thesis
  proof (cases "ndim ?cc = 5 \<or> ndim ?cc = 6")
    case False
    then show ?thesis
      by (simp add: eikonal_single_step_def eikonal_single_step_st_def Let_def)
  next
    case True
    show ?thesis
    proof (cases "select_dim ?cc 2 0")
      case (Inl e)
      then show ?thesis
        using True by (simp add: eikonal_single_step_def eikonal_single_step_st_def Let_def)
    next
      case (Inr c0)
      let ?cls = "zip (tl (if ndim ?cc = 5 then index_list_2d else index_list_3d))
                      (tl (if ndim ?cc = 5 then factors_2d else factors_3d))"
      let ?st1 = "st\<lparr>heap := (heap st)(next_free st := ones_like c0), next_free := Suc (next_free st)\<rparr>"
      have ne: "connected_components \<noteq> next_free st" using assms by simp
      have h: "heap ?st1 connected_components = ?cc" "heap ?st1 (next_free st) = ones_like c0"
        using ne by simp_all
      note sim = class_loop_st_sim[OF ne, of ?cls ?st1, unfolded h]
      show ?thesis
      proof (cases "class_loop ?cc (ones_like c0) ?cls")
        case (Inl e)
        then show ?thesis
          using True Inr sim
          by (simp add: eikonal_single_step_def eikonal_single_step_st_def Let_def alloc_def)
      next
        case phi: (Inr phi)
        then show ?thesis
          using True Inr sim
          by (simp add: eikonal_single_step_def eikonal_single_step_st_def Let_def alloc_def overwrite_def)
      qed
    qed
  qed
qed

lemma loop_body_st_sim:
  assumes "T < next_free st" "T0 < next_free st"
  shows "case loop_body aff sem (heap st T) (heap st T0) t of
           Inl e \<Rightarrow> loop_body_st aff sem T T0 t st = Inl e
         | Inr (T', T0', err) \<Rightarrow>
             (\<exists>T3 st'. loop_body_st aff sem T T0 t st = Inr (T3, err, st') \<and>
                 heap st' T3 = T' \<and> heap st' T0 = T0' \<and>
                 next_free st \<le> T3 \<and> T3 < next_free st' \<and> next_free st \<le> next_free st' \<and>
                 (\<forall>a<next_free st. a \<noteq> T0 \<longrightarrow> heap st' a = heap st a))"
proof (cases "bindE (binary_convolution (heap st T)) (\<lambda>nb. binop (\<lambda>x k. x * of_bool k) nb aff)")
  case (Inl e)
  then show ?thesis
    by (auto simp: loop_body_def update_pass_def loop_body_st_def bindE_def split: sum.splits)
next
  case (Inr ccv)
  let ?n = "next_free st"
  let ?st1 = "st\<lparr>heap := (heap st)(?n := ccv), next_free := Suc ?n\<rparr>"
  have a1: "alloc ccv st = (?n, ?st1)" by (simp add: alloc_def)
  have pre: "loop_body_st aff sem T T0 t st =
     bindE (eikonal_single_step_st ?n ?st1) (\<lambda>(T1, st2).
     bindE (binop_inplace (\<lambda>x k. x * of_bool k) (heap st2 T1) sem) (\<lambda>v.
     let st3 = overwrite T1 v st2
     in bindE (binop (\<lambda>x y. x - y) (heap st3 T1) (heap st3 T0)) (\<lambda>diff.
        let error = mean_all (map_tensor (\<lambda>x. x\<^sup>2) diff)
        in bindE (if t < 1
                  then bindE (smooth aff (heap st3 T1)) (\<lambda>s. Inr (alloc s st3))
                  else Inr (T1, st3)) (\<lambda>(T3, st4).
           bindE (binop_inplace (\<lambda>old new. new) (heap st4 T0) (heap st4 T3)) (\<lambda>v0.
           Inr (T3, error, overwrite T0 v0 st4))))))"
    using Inr by (auto simp: loop_body_st_def a1 bindE_def split: sum.splits)
  have pure: "loop_body aff sem (heap st T) (heap st T0) t =
     bindE (eikonal_single_step ccv) (\<lambda>T1.
     bindE (binop_inplace (\<lambda>x k. x * of_bool k) T1 sem) (\<lambda>T2.
     bindE (binop (\<lambda>x y. x - y) T2 (heap st T0)) (\<lambda>diff.
     let error = mean_all (map_tensor (\<lambda>x. x\<^sup>2) diff)
     in bindE (if t < 1 then smooth aff T2 else Inr T2) (\<lambda>T3.
        bindE (binop_inplace (\<lambda>old new. new) (heap st T0) T3) (\<lambda>T0'.
        Inr (T3, T0', error))))))"
    using Inr by (auto simp: loop_body_def update_pass_def bindE_def split: sum.splits)
  have lt: "?n < next_free ?st1" by simp
  note ss = eikonal_single_step_st_sim[OF lt]
  show ?thesis
  proof (cases "eikonal_single_step ccv")
    case (Inl e)
    then show ?thesis using ss by (simp add: pre pure)
  next
    case T1: (Inr T1v)
    with ss obtain st2 where st2: "eikonal_single_step_st ?n ?st1 = Inr (Suc (Suc ?n), st2)"
      "heap st2 (Suc (Suc ?n)) = T1v" "next_free st2 = Suc (Suc (Suc ?n))"
      "\<forall>a<Suc ?n. heap st2 a = heap ?st1 a"
      by auto
    have old: "heap st2 a = heap st a" if "a < ?n" for a
      using st2(4) that by auto
    have T0': "heap st2 T0 = heap st T0" using old assms(2) by simp
    have neq: "T0 \<noteq> Suc (Suc ?n)" "T0 \<noteq> Suc (Suc (Suc ?n))" using assms(2) by auto
    show ?thesis
      using neq T0' old
      by (auto simp: pre pure T1 st2(1,2,3) Let_def alloc_def bindE_def split: sum.splits)
  qed
qed

lemma eikonal_loop_st_sim:
  assumes "T < next_free st" "T0 < next_free st"
  shows "case eikonal_loop aff sem eps min_steps (heap st T) (heap st T0) t err of
           Inl e \<Rightarrow> eikonal_loop_st aff sem eps min_steps T T0 t err st = Inl e
         | Inr (Tf, T0f, tf, ef) \<Rightarrow>
             (\<exists>a st'. eikonal_loop_st aff sem eps min_steps T T0 t err st = Inr (a, st') \<and>
                 heap st' a = Tf \<and>
                 (\<forall>b<next_free st. b \<noteq> T0 \<longrightarrow> heap st' b = heap st b))"
  using assms
proof (induction "nat (min_steps - t)" arbitrary: T st t err rule: less_induct)
  case less
  show ?case
  proof (cases "float_gt err eps \<and> t < min_steps")
    case False
    then show ?thesis
      by (subst eikonal_loop.simps, subst eikonal_loop_st.simps) auto
  next
    case True
    note body = loop_body_st_sim[OF less.prems, of aff sem t]
    show ?thesis
    proof (cases "loop_body aff sem (heap st T) (heap st T0) t")
      case (Inl e)
      then show ?thesis
        using True body by (subst eikonal_loop.simps, subst eikonal_loop_st.simps) simp
    next
      case (Inr res)
      obtain T' T0' err' where res: "res = (T', T0', err')" by (cases res)
      with Inr body obtain T3 st1 where b: "loop_body_st aff sem T T0 t st = Inr (T3, err', st1)"
        "heap st1 T3 = T'" "heap st1 T0 = T0'" "T3 < next_free st1" "next_free st \<le> next_free st1"
        "\<forall>a<next_free st. a \<noteq> T0 \<longrightarrow> heap st1 a = heap st a"
        by auto
      have m: "nat (min_steps - (t + 1)) < nat (min_steps - t)" using True by auto
      have T0lt: "T0 < next_free st1" using less.prems(2) b(5) by simp
      note ih = less.hyps[OF m b(4) T0lt, of err', unfolded b(2,3)]
      have p: "eikonal_loop aff sem eps min_steps (heap st T) (heap st T0) t err
               = eikonal_loop aff sem eps min_steps T' T0' (t + 1) err'"
        using True Inr res by (subst eikonal_loop.simps) simp
      have q: "eikonal_loop_st aff sem eps min_steps T T0 t err st
               = eikonal_loop_st aff sem eps min_steps T3 T0 (t + 1) err' st1"
        using True b(1) by (subst eikonal_loop_st.simps) simp
      show ?thesis
        unfolding p q using ih b(5,6)
        by (auto split: sum.splits)
    qed
  qed
qed

lemma solve_eikonal_st_sim:
  assumes "instance_mask < next_free st"
  shows "case solve_eikonal (heap st instance_mask) eps min_steps of
           Inl e \<Rightarrow> solve_eikonal_st instance_mask eps min_steps st = Inl e
         | Inr Tf \<Rightarrow>
             (\<exists>a st'. solve_eikonal_st instance_mask eps min_steps st = Inr (a, st') \<and>
                 heap st' a = Tf \<and>
                 (\<forall>b<next_free st. heap st' b = heap st b))"
proof (cases "affinity_mask_of (heap st instance_mask)")
  case (Inl e)
  then show ?thesis
    using assms
    by (auto simp: solve_eikonal_def solve_eikonal_run_def solve_eikonal_st_def affinity_mask_of_def
        alloc_def bindE_def split: sum.splits)
next
  case (Inr aff)
  let ?n = "next_free st"
  let ?m = "heap st instance_mask"
  let ?sem = "map_tensor (\<lambda>x. x > 0) ?m"
  obtain nb centre differs v where aff:
    "binary_convolution ?m = Inr nb" "unsqueeze ?m 2 = Inr centre"
    "binop (\<lambda>x y. x \<noteq> y) nb centre = Inr differs" "masked_fill nb differs 0 = Inr v"
    "aff = map_tensor (\<lambda>x. x > 0) v"
    using Inr by (auto simp: affinity_mask_of_def bindE_def split: sum.splits)
  let ?st4 = "st\<lparr>heap := (heap st)(?n := v, Suc ?n := ones_like ?m, Suc (Suc ?n) := ones_like ?m),
                 next_free := Suc (Suc (Suc ?n))\<rparr>"
  have st: "solve_eikonal_st instance_mask eps min_steps st =
      eikonal_loop_st aff ?sem eps min_steps (Suc ?n) (Suc (Suc ?n)) 0 PosInf ?st4"
    using assms aff
    by (simp add: solve_eikonal_st_def alloc_def Let_def overwrite_def fun_upd_twist)
  have lt: "Suc ?n < next_free ?st4" "Suc (Suc ?n) < next_free ?st4" by simp_all
  note sim = eikonal_loop_st_sim[OF lt, of aff ?sem eps min_steps 0 PosInf]
  have pure: "solve_eikonal ?m eps min_steps =
      bindE (eikonal_loop aff ?sem eps min_steps (ones_like ?m) (ones_like ?m) 0 PosInf)
        (\<lambda>(T, T0, t, error). Inr T)"
    by (simp add: solve_eikonal_def solve_eikonal_run_def Inr Let_def)
  show ?thesis
    unfolding pure st using sim assms
    by (auto simp: bindE_def split: sum.splits)
qed

lemma gradient_from_eikonal_st_sim:
  assumes "eikonal < next_free st"
  shows "case gradient_from_eikonal (heap st eikonal) of
           Inl e \<Rightarrow> gradient_from_eikonal_st eikonal st = Inl e
         | Inr g \<Rightarrow>
             (\<exists>a st'. gradient_from_eikonal_st eikonal st = Inr (a, st') \<and>
                 heap st' a = g \<and>
                 (\<forall>b<next_free st. heap st' b = heap st b))"
proof -
  have ne: "eikonal \<noteq> next_free st" using assms by simp
  show ?thesis
    using ne
    by (auto simp: gradient_from_eikonal_def gradient_from_eikonal_st_def Let_def alloc_def
        overwrite_def bindE_def split: sum.splits)
qed

text \<open>
  C10. In any store in which the argument lives at an address in use, each entry point
  computes in the store model what it computes in the pure model (the same error, or a
  new tensor holding the same result), and when it returns, every tensor that was in the
  store before the call, the argument among them, is what it was: the in-place operations
  have written only tensors allocated during the call.
\<close>

theorem entry_points_leave_the_argument_unchanged:
  assumes "x < next_free st"
  shows "(case solve_eikonal (heap st x) eps min_steps of
            Inl e \<Rightarrow> solve_eikonal_st x eps min_steps st = Inl e
          | Inr T \<Rightarrow>
              (\<exists>a st'. solve_eikonal_st x eps min_steps st = Inr (a, st') \<and> heap st' a = T \<and>
                  heap st' x = heap st x \<and> (\<forall>b<next_free st. heap st' b = heap st b))) \<and>
         (case gradient_from_eikonal (heap st x) of
            Inl e \<Rightarrow> gradient_from_eikonal_st x st = Inl e
          | Inr g \<Rightarrow>
              (\<exists>a st'. gradient_from_eikonal_st x st = Inr (a, st') \<and> heap st' a = g \<and>
                  heap st' x = heap st x \<and> (\<forall>b<next_free st. heap st' b = heap st b)))"
  using solve_eikonal_st_sim[OF assms, of eps min_steps] gradient_from_eikonal_st_sim[OF assms] assms
  by (auto split: sum.splits)

theorem entry_points_leave_the_argument_unchanged_witness:
  "(0 :: nat) < next_free \<lparr>heap = (\<lambda>a. \<lparr>shape = [1, 1, 1, 1], elem = (\<lambda>idx. 0)\<rparr>), next_free = 1\<rparr> \<and>
   (\<exists>a st'. solve_eikonal_st 0 (1 / 1000) 51
               \<lparr>heap = (\<lambda>a. \<lparr>shape = [1, 1, 1, 1], elem = (\<lambda>idx. 0)\<rparr>), next_free = 1\<rparr> = Inr (a, st') \<and>
             heap st' 0 = \<lparr>shape = [1, 1, 1, 1], elem = (\<lambda>idx. 0)\<rparr>) \<and>
   (\<exists>a st'. gradient_from_eikonal_st 0
               \<lparr>heap = (\<lambda>a. \<lparr>shape = [1, 1, 1, 1], elem = (\<lambda>idx. 0)\<rparr>), next_free = 1\<rparr> = Inr (a, st') \<and>
             heap st' 0 = \<lparr>shape = [1, 1, 1, 1], elem = (\<lambda>idx. 0)\<rparr>)"
proof -
  define z :: "real tensor" where "z = \<lparr>shape = [1, 1, 1, 1], elem = (\<lambda>idx. 0)\<rparr>"
  define st where "st = \<lparr>heap = (\<lambda>a. z), next_free = 1\<rparr>"
  have lt: "(0 :: nat) < next_free st" and h: "heap st 0 = z"
    by (simp_all add: st_def)
  have "\<exists>T T0 t e. solve_eikonal_run z (1 / 1000) 51 = Inr (T, T0, t, e)"
    using solve_eikonal_run_ok[of z 1 1 "[1, 1]" "1 / 1000" 51] by (auto simp: z_def)
  then obtain T where s: "solve_eikonal z (1 / 1000) 51 = Inr T"
    by (auto simp: solve_eikonal_def)
  obtain g where g: "gradient_from_eikonal z = Inr g"
    using gradient_2d_single[of z 1 1] by (auto simp: z_def)
  from entry_points_leave_the_argument_unchanged[OF lt, of "1 / 1000" 51, unfolded h s g]
  have "(\<exists>a st'. solve_eikonal_st 0 (1 / 1000) 51 st = Inr (a, st') \<and> heap st' 0 = z) \<and>
        (\<exists>a st'. gradient_from_eikonal_st 0 st = Inr (a, st') \<and> heap st' 0 = z)"
    by auto
  then show ?thesis
    using lt unfolding st_def z_def by blast
qed

end
